theory Spec2Isabelle
  imports Main
begin

section \<open>Data model of backend/index.js\<close>

text \<open>
  The backend is one Express handler, \<^verbatim>\<open>POST /create-video\<close>, that drives the external
  encoder through four stages.  The handler is embedded from its first line, after the
  upload middleware has run: for a multipart body the middleware has stored the files and
  filled \<^verbatim>\<open>req.files\<close>; for any other body it has passed the request on with
  \<^verbatim>\<open>req.files\<close> undefined.  Everything outside the handler's own code is explicit:
  \<^item> the file system is a map from paths to contents; two paths name the same file iff
    they are the same string;
  \<^item> \<^verbatim>\<open>Date.now()\<close> reads the next element of a sequence of timestamps;
  \<^item> the external encoder is a parameter: a function from the command the handler builds
    and the file system to an outcome (the \<^verbatim>\<open>end\<close> or the \<^verbatim>\<open>error\<close> event).  On
    \<^verbatim>\<open>end\<close> the output file holds the clip the encoder produced; on \<^verbatim>\<open>error\<close>
    the file system is left as it was;
  \<^item> \<^verbatim>\<open>console.log\<close>/\<^verbatim>\<open>console.error\<close>, the encoder invocations and
    \<^verbatim>\<open>fs.writeFileSync\<close> append to logs kept in the state.
\<close>

text \<open>A file object of the upload middleware: \<^verbatim>\<open>file.path\<close>, \<^verbatim>\<open>file.mimetype\<close> (which may be
  undefined).\<close>

record multer_file =
  path :: string
  mimetype :: "string option"

text \<open>The object \<^verbatim>\<open>req.files\<close> of a multipart request: \<^verbatim>\<open>req.files["media"]\<close> and
  \<^verbatim>\<open>req.files["audio"]\<close>, each undefined or an array.\<close>

record upload_fields =
  media :: "multer_file list option"
  audio :: "multer_file list option"

text \<open>The request as the handler reads it: \<^verbatim>\<open>req.files\<close>, which is undefined when the
  body was not multipart.\<close>

record request =
  req_files :: "upload_fields option"

text \<open>What a media file holds, as far as the claims observe it: a duration in
  milliseconds, the video stream (if any) and the codec of the audio stream (if any).\<close>

record vstream =
  width :: nat
  height :: nat
  fps :: nat
  pix_fmt :: string
  vcodec :: string

record clip =
  duration :: nat
  video :: "vstream option"
  acodec :: "string option"

datatype content = Text string | Clip clip | Blob

text \<open>A command assembled with the fluent builder: \<^verbatim>\<open>ffmpeg(input)\<close>/\<^verbatim>\<open>.input\<close>,
  \<^verbatim>\<open>.inputOptions\<close>, \<^verbatim>\<open>.outputOptions\<close>, \<^verbatim>\<open>.videoFilters\<close>, \<^verbatim>\<open>.audioCodec\<close>,
  \<^verbatim>\<open>.save\<close>.\<close>

record ffmpeg_cmd =
  inputs :: "string list"
  inputOptions :: "string list"
  outputOptions :: "string list"
  videoFilters :: "string list"
  audioCodec :: "string option"
  save :: string

datatype outcome = Ended clip | Errored string

datatype log_arg = Txt string | CmdLine ffmpeg_cmd | ErrObj string

datatype log_entry = Log "log_arg list" | LogError "log_arg list"

record world =
  files :: "string \<rightharpoonup> content"
  clock :: nat
  console :: "log_entry list"
  invoked :: "(ffmpeg_cmd \<times> outcome) list"
  written :: "(string \<times> string) list"

text \<open>The surroundings of the handler: \<^verbatim>\<open>__dirname\<close>, the timestamps \<^verbatim>\<open>Date.now()\<close>
  returns (the k-th call returns \<open>now k\<close>), and the external encoder.\<close>

record env =
  dirname :: string
  now :: "nat \<Rightarrow> nat"
  ffmpeg :: "ffmpeg_cmd \<Rightarrow> (string \<rightharpoonup> content) \<Rightarrow> outcome"

text \<open>What becomes of the request: a JSON answer with its status, the download of a file
  with its headers, or an error thrown outside the \<^verbatim>\<open>try\<close>, in which case the handler
  itself sends nothing and its promise is rejected with that error.\<close>

datatype response = Json nat string | Download "(string \<times> string) list" string | Thrown string

section \<open>Helpers: paths, decimal numerals, prefixes\<close>

text \<open>\<^verbatim>\<open>path.join(d, f)\<close> for a normalised directory \<open>d\<close> and a plain file name \<open>f\<close>
  (POSIX separator).\<close>

definition path_join :: "string \<Rightarrow> string \<Rightarrow> string" where
  "path_join d f = (if d \<noteq> [] \<and> last d = CHR ''/'' then d @ f else d @ ''/'' @ f)"

definition uploadFolder :: "env \<Rightarrow> string" where
  "uploadFolder e = path_join (dirname e) ''uploads''"

definition tempFolder :: "env \<Rightarrow> string" where
  "tempFolder e = path_join (dirname e) ''temp''"

definition outputFolder :: "env \<Rightarrow> string" where
  "outputFolder e = path_join (dirname e) ''outputs''"

text \<open>The decimal numeral a template literal prints for a non-negative integer.\<close>

definition digit :: "nat \<Rightarrow> char" where
  "digit d = ''0123456789'' ! d"

fun dec :: "nat \<Rightarrow> string" where
  "dec n = (if n < 10 then [digit n] else dec (n div 10) @ [digit (n mod 10)])"

declare dec.simps [simp del]

text \<open>\<^verbatim>\<open>s.startsWith(p)\<close>.\<close>

definition startsWith :: "string \<Rightarrow> string \<Rightarrow> bool" where
  "startsWith s p = (take (length p) s = p)"

section \<open>State operations\<close>

definition date_now :: "env \<Rightarrow> world \<Rightarrow> nat \<times> world" where
  "date_now e w = (now e (clock w), w\<lparr>clock := Suc (clock w)\<rparr>)"

definition console_log :: "log_arg list \<Rightarrow> world \<Rightarrow> world" where
  "console_log args w = w\<lparr>console := console w @ [Log args]\<rparr>"

definition console_error :: "log_arg list \<Rightarrow> world \<Rightarrow> world" where
  "console_error args w = w\<lparr>console := console w @ [LogError args]\<rparr>"

text \<open>One run of the encoder, awaited: the promise resolves on \<^verbatim>\<open>end\<close> and rejects with
  the error on \<^verbatim>\<open>error\<close>.\<close>

definition run_ffmpeg :: "env \<Rightarrow> ffmpeg_cmd \<Rightarrow> world \<Rightarrow> (string + unit) \<times> world" where
  "run_ffmpeg e cmd w =
     (case ffmpeg e cmd (files w) of
        Ended c \<Rightarrow>
          (Inr (), w\<lparr>files := (files w)(save cmd \<mapsto> Clip c),
                      invoked := invoked w @ [(cmd, Ended c)]\<rparr>)
      | Errored err \<Rightarrow>
          (Inl err, w\<lparr>invoked := invoked w @ [(cmd, Errored err)]\<rparr>))"

definition writeFileSync :: "string \<Rightarrow> string \<Rightarrow> world \<Rightarrow> world" where
  "writeFileSync p txt w =
     w\<lparr>files := (files w)(p \<mapsto> Text txt), written := written w @ [(p, txt)]\<rparr>"

definition existsSync :: "string \<Rightarrow> world \<Rightarrow> bool" where
  "existsSync p w = (files w p \<noteq> None)"

text \<open>\<^verbatim>\<open>fs.existsSync(p) && fs.unlinkSync(p)\<close>.\<close>

definition unlink_existing :: "string \<Rightarrow> world \<Rightarrow> world" where
  "unlink_existing p w = (if existsSync p w then w\<lparr>files := (files w)(p := None)\<rparr> else w)"

section \<open>The two normalizers\<close>

definition image_cmd :: "string \<Rightarrow> string \<Rightarrow> ffmpeg_cmd" where
  "image_cmd inputPath outputPath =
     \<lparr>inputs = [inputPath], inputOptions = [''-loop 1''],
      outputOptions = [''-t 3'', ''-r 30''],
      videoFilters = [''scale=1280:720,format=yuv420p''],
      audioCodec = None, save = outputPath\<rparr>"

definition createVideoFromImage ::
    "env \<Rightarrow> string \<Rightarrow> nat \<Rightarrow> world \<Rightarrow> (string + string) \<times> world" where
  "createVideoFromImage e inputPath index w =
     (case date_now e w of (t, w1) \<Rightarrow>
        (let outputPath = path_join (tempFolder e) (''img-'' @ dec t @ ''-'' @ dec index @ ''.mp4'')
         in (case run_ffmpeg e (image_cmd inputPath outputPath) w1 of
               (Inl err, w2) \<Rightarrow> (Inl err, w2)
             | (Inr _, w2) \<Rightarrow> (Inr outputPath, w2))))"

definition video_cmd :: "string \<Rightarrow> string \<Rightarrow> ffmpeg_cmd" where
  "video_cmd inputPath outputPath =
     \<lparr>inputs = [inputPath], inputOptions = [],
      outputOptions = [''-r 30''],
      videoFilters = [''scale=1280:720,format=yuv420p''],
      audioCodec = Some ''aac'', save = outputPath\<rparr>"

definition normalizeVideo ::
    "env \<Rightarrow> string \<Rightarrow> nat \<Rightarrow> world \<Rightarrow> (string + string) \<times> world" where
  "normalizeVideo e inputPath index w =
     (case date_now e w of (t, w1) \<Rightarrow>
        (let outputPath = path_join (tempFolder e) (''vid-'' @ dec t @ ''-'' @ dec index @ ''.mp4'')
         in (case run_ffmpeg e (video_cmd inputPath outputPath) w1 of
               (Inl err, w2) \<Rightarrow> (Inl err, w2)
             | (Inr _, w2) \<Rightarrow> (Inr outputPath, w2))))"

section \<open>The handler\<close>

text \<open>\<^verbatim>\<open>file.mimetype || ""\<close>.\<close>

definition mime_of :: "multer_file \<Rightarrow> string" where
  "mime_of f = (case mimetype f of None \<Rightarrow> [] | Some m \<Rightarrow> m)"

text \<open>Stage 1, the loop \<^verbatim>\<open>for (let i = 0; i < mediaFiles.length; i++)\<close>: \<open>i\<close> is the loop
  index, the list holds \<^verbatim>\<open>mediaFiles[i..]\<close>, \<open>segmentPaths\<close> is the array built so far.  A
  rejected promise leaves the loop at once.\<close>

fun segment_loop ::
    "env \<Rightarrow> nat \<Rightarrow> multer_file list \<Rightarrow> string list \<Rightarrow> world \<Rightarrow> (string + string list) \<times> world" where
  "segment_loop e i [] segmentPaths w = (Inr segmentPaths, w)"
| "segment_loop e i (f # rest) segmentPaths w =
     (let mime = mime_of f in
      if startsWith mime ''image/'' then
        (case createVideoFromImage e (path f) i w of
           (Inl err, w1) \<Rightarrow> (Inl err, w1)
         | (Inr seg, w1) \<Rightarrow> segment_loop e (Suc i) rest (segmentPaths @ [seg]) w1)
      else if startsWith mime ''video/'' then
        (case normalizeVideo e (path f) i w of
           (Inl err, w1) \<Rightarrow> (Inl err, w1)
         | (Inr seg, w1) \<Rightarrow> segment_loop e (Suc i) rest (segmentPaths @ [seg]) w1)
      else
        segment_loop e (Suc i) rest segmentPaths
          (console_log [Txt ''Skipping unsupported file type:'', Txt mime] w))"

text \<open>Stage 2, the manifest: \<^verbatim>\<open>p.replace(/'/g, "'\\''")\<close> replaces every single quote by
  the four characters quote, backslash, quote, quote; each path becomes the line
  \<^verbatim>\<open>file '...'\<close>; the lines are joined with a newline.\<close>

definition quote_char :: char where
  "quote_char = CHR 0x27"

definition backslash :: char where
  "backslash = CHR 0x5C"

definition newline :: char where
  "newline = CHR 0x0A"

fun escape_quotes :: "string \<Rightarrow> string" where
  "escape_quotes [] = []"
| "escape_quotes (c # cs) =
     (if c = quote_char then [quote_char, backslash, quote_char, quote_char] @ escape_quotes cs
      else c # escape_quotes cs)"

definition manifest_line :: "string \<Rightarrow> string" where
  "manifest_line p = ''file '' @ [quote_char] @ escape_quotes p @ [quote_char]"

fun join_lines :: "string list \<Rightarrow> string" where
  "join_lines [] = []"
| "join_lines [l] = l"
| "join_lines (l # ls) = l @ [newline] @ join_lines ls"

definition concatFileContent :: "string list \<Rightarrow> string" where
  "concatFileContent segmentPaths = join_lines (map manifest_line segmentPaths)"

definition concat_cmd :: "string \<Rightarrow> string \<Rightarrow> ffmpeg_cmd" where
  "concat_cmd concatListPath mergedVideoPath =
     \<lparr>inputs = [concatListPath], inputOptions = [''-f concat'', ''-safe 0''],
      outputOptions = [''-c:v libx264'', ''-pix_fmt yuv420p'', ''-r 30''],
      videoFilters = [], audioCodec = None, save = mergedVideoPath\<rparr>"

definition mux_cmd :: "string \<Rightarrow> string \<Rightarrow> string \<Rightarrow> ffmpeg_cmd" where
  "mux_cmd mergedVideoPath audioPath outputPath =
     \<lparr>inputs = [mergedVideoPath, audioPath], inputOptions = [],
      outputOptions = [''-c:v copy'', ''-c:a aac'', ''-shortest''],
      videoFilters = [], audioCodec = None, save = outputPath\<rparr>"

text \<open>Stages 2 and 3: write the manifest, then concatenate.  The result is the pair of
  the manifest's path and the merged track's path.\<close>

definition concat_stage ::
    "env \<Rightarrow> string list \<Rightarrow> world \<Rightarrow> (string + string \<times> string) \<times> world" where
  "concat_stage e segmentPaths w =
     (case date_now e w of (t1, w1) \<Rightarrow>
        (let concatListPath = path_join (tempFolder e) (''concat-list-'' @ dec t1 @ ''.txt'');
             w2 = writeFileSync concatListPath (concatFileContent segmentPaths) w1
         in (case date_now e w2 of (t2, w3) \<Rightarrow>
           (let mergedVideoPath = path_join (tempFolder e) (''merged-'' @ dec t2 @ ''.mp4'');
                cmd = concat_cmd concatListPath mergedVideoPath;
                w4 = console_log [Txt ''FFmpeg concat cmd:'', CmdLine cmd] w3
            in (case run_ffmpeg e cmd w4 of
                  (Inl err, w5) \<Rightarrow>
                    (Inl err, console_error [Txt ''FFmpeg concat error:'', ErrObj err] w5)
                | (Inr _, w5) \<Rightarrow>
                    (Inr (concatListPath, mergedVideoPath),
                     console_log [Txt ''Concatenation finished:'', Txt mergedVideoPath] w5))))))"

text \<open>Stage 4: mux the merged track with the recorded audio.\<close>

definition mux_stage ::
    "env \<Rightarrow> string \<Rightarrow> string \<Rightarrow> world \<Rightarrow> (string + string) \<times> world" where
  "mux_stage e mergedVideoPath audioPath w =
     (case date_now e w of (t, w1) \<Rightarrow>
        (let outputFileName = ''final-'' @ dec t @ ''.mp4'';
             outputPath = path_join (outputFolder e) outputFileName;
             cmd = mux_cmd mergedVideoPath audioPath outputPath;
             w2 = console_log [Txt ''FFmpeg merge cmd:'', CmdLine cmd] w1
         in (case run_ffmpeg e cmd w2 of
               (Inl err, w3) \<Rightarrow>
                 (Inl err, console_error [Txt ''FFmpeg merge error:'', ErrObj err] w3)
             | (Inr _, w3) \<Rightarrow>
                 (Inr outputPath, console_log [Txt ''Final merge finished:'', Txt outputPath] w3))))"

text \<open>The listener on the read stream's \<^verbatim>\<open>close\<close>.  \<^verbatim>\<open>fs.unlinkSync\<close> of a file that
  does not exist throws; the \<^verbatim>\<open>catch\<close> logs and nothing after the throw runs.\<close>

definition cleanup ::
    "multer_file \<Rightarrow> multer_file list \<Rightarrow> string list \<Rightarrow> string \<Rightarrow> world \<Rightarrow> world" where
  "cleanup audioFile mediaFiles segmentPaths concatListPath w =
     (if \<not> existsSync (path audioFile) w then
        console_error [Txt ''Cleanup error:'', ErrObj ''ENOENT''] w
      else
        (let w1 = w\<lparr>files := (files w)(path audioFile := None)\<rparr>;
             w2 = fold (\<lambda>f. unlink_existing (path f)) mediaFiles w1;
             w3 = fold unlink_existing segmentPaths w2
         in unlink_existing concatListPath w3))"

definition download_headers :: "(string \<times> string) list" where
  "download_headers =
     [(''Content-Type'', ''video/mp4''),
      (''Content-Disposition'', ''attachment; filename='' @ [CHR 0x22] @ ''final-video.mp4'' @ [CHR 0x22])]"

text \<open>The body of the \<^verbatim>\<open>try\<close>: \<open>Inl\<close> is a thrown error (a rejected promise), \<open>Inr\<close>
  the response sent.\<close>

definition try_body ::
    "env \<Rightarrow> multer_file list \<Rightarrow> multer_file \<Rightarrow> world \<Rightarrow> (string + response) \<times> world" where
  "try_body e mediaFiles audioFile w =
     (case segment_loop e 0 mediaFiles [] w of
        (Inl err, w1) \<Rightarrow> (Inl err, w1)
      | (Inr segmentPaths, w1) \<Rightarrow>
          if segmentPaths = [] then
            (Inr (Json 400 ''No valid media (image/video) files to process.''), w1)
          else
            (case concat_stage e segmentPaths w1 of
               (Inl err, w2) \<Rightarrow> (Inl err, w2)
             | (Inr (concatListPath, mergedVideoPath), w2) \<Rightarrow>
                 (case mux_stage e mergedVideoPath (path audioFile) w2 of
                    (Inl err, w3) \<Rightarrow> (Inl err, w3)
                  | (Inr outputPath, w3) \<Rightarrow>
                      (Inr (Download download_headers outputPath),
                       cleanup audioFile mediaFiles segmentPaths concatListPath w3))))"

definition create_video :: "env \<Rightarrow> request \<Rightarrow> world \<Rightarrow> response \<times> world" where
  "create_video e req w =
     (case req_files req of
        None \<Rightarrow> (Thrown ''TypeError'', w)
      | Some uploaded \<Rightarrow>
          (case media uploaded of
             None \<Rightarrow> (Json 400 ''No media files received.'', w)
           | Some mediaFiles \<Rightarrow>
               if mediaFiles = [] then (Json 400 ''No media files received.'', w)
               else
                 (case audio uploaded of
                    None \<Rightarrow> (Json 400 ''No audio file received.'', w)
                  | Some [] \<Rightarrow> (Json 400 ''No audio file received.'', w)
                  | Some (audioFile # _) \<Rightarrow>
                      (case try_body e mediaFiles audioFile w of
                         (Inl err, w1) \<Rightarrow>
                           (Json 500 ''Failed to create video.'',
                            console_error [Txt ''Error in /create-video:'', ErrObj err] w1)
                       | (Inr resp, w1) \<Rightarrow> (resp, w1)))))"

section \<open>The list file as the encoder reads it\<close>

text \<open>
  The manifest is read by the encoder's concat demuxer.  Its grammar, as far as the handler
  uses it: the file is cut into lines at line feeds and carriage returns; on each line
  the first word is the directive; an empty line and a line starting with \<^verbatim>\<open>#\<close> are
  skipped; the directive \<^verbatim>\<open>file\<close> takes one token.  In a token a backslash makes the
  next character literal, everything between two single quotes is literal, and unquoted
  white space ends the token.  Other directives are not part of the model: a line with one
  of them makes the whole script unreadable here.
\<close>

definition carriage_return :: char where
  "carriage_return = CHR 0x0D"

definition is_eol :: "char \<Rightarrow> bool" where
  "is_eol c = (c = newline \<or> c = carriage_return)"

definition is_space :: "char \<Rightarrow> bool" where
  "is_space c = (c = CHR '' '' \<or> c = newline \<or> c = CHR 0x09 \<or> c = carriage_return)"

fun lines_of :: "string \<Rightarrow> string list" where
  "lines_of [] = [[]]"
| "lines_of (c # cs) =
     (if is_eol c then [] # lines_of cs
      else (case lines_of cs of [] \<Rightarrow> [[c]] | l # ls \<Rightarrow> (c # l) # ls))"

text \<open>\<open>token_out\<close> reads outside quotes, \<open>token_in\<close> between quotes; both return the
  token and what is left of the line.\<close>

fun token_out :: "string \<Rightarrow> string \<times> string"
  and token_in :: "string \<Rightarrow> string \<times> string" where
  "token_out [] = ([], [])"
| "token_out [c] =
     (if is_space c then ([], [c])
      else if c = quote_char then token_in []
      else ([c], []))"
| "token_out (c # d # cs) =
     (if is_space c then ([], c # d # cs)
      else if c = backslash then (case token_out cs of (t, r) \<Rightarrow> (d # t, r))
      else if c = quote_char then token_in (d # cs)
      else (case token_out (d # cs) of (t, r) \<Rightarrow> (c # t, r)))"
| "token_in [] = ([], [])"
| "token_in (c # cs) =
     (if c = quote_char then token_out cs
      else (case token_in cs of (t, r) \<Rightarrow> (c # t, r)))"

datatype directive = Skip | File string | Unknown

definition parse_line :: "string \<Rightarrow> directive" where
  "parse_line l =
     (let l1 = dropWhile is_space l;
          keyword = takeWhile (\<lambda>c. \<not> is_space c) l1;
          cursor = dropWhile is_space (dropWhile (\<lambda>c. \<not> is_space c) l1)
      in if keyword = [] \<or> hd keyword = CHR ''#'' then Skip
         else if keyword = ''file'' then File (fst (token_out cursor))
         else Unknown)"

fun script_files :: "string list \<Rightarrow> string list option" where
  "script_files [] = Some []"
| "script_files (l # ls) =
     (case parse_line l of
        Skip \<Rightarrow> script_files ls
      | File p \<Rightarrow> (case script_files ls of None \<Rightarrow> None | Some ps \<Rightarrow> Some (p # ps))
      | Unknown \<Rightarrow> None)"

definition concat_script_paths :: "string \<Rightarrow> string list option" where
  "concat_script_paths txt = script_files (lines_of txt)"

definition eol_free :: "string \<Rightarrow> bool" where
  "eol_free s = (\<forall>c \<in> set s. \<not> is_eol c)"

section \<open>Names for what the loop does with one item\<close>

definition is_image :: "multer_file \<Rightarrow> bool" where
  "is_image f = startsWith (mime_of f) ''image/''"

definition is_video :: "multer_file \<Rightarrow> bool" where
  "is_video f = startsWith (mime_of f) ''video/''"

definition supported :: "multer_file \<Rightarrow> bool" where
  "supported f = (is_image f \<or> is_video f)"

definition skip_log :: "multer_file \<Rightarrow> log_entry" where
  "skip_log f = Log [Txt ''Skipping unsupported file type:'', Txt (mime_of f)]"

text \<open>The segment written for the item \<open>f\<close> with ordinal \<open>i\<close> when the clock showed \<open>t\<close>,
  and the command that writes it.\<close>

definition segment_path :: "env \<Rightarrow> multer_file \<Rightarrow> nat \<Rightarrow> nat \<Rightarrow> string" where
  "segment_path e f t i =
     path_join (tempFolder e)
       ((if is_image f then ''img-'' else ''vid-'') @ dec t @ ''-'' @ dec i @ ''.mp4'')"

definition segment_cmd :: "env \<Rightarrow> multer_file \<Rightarrow> nat \<Rightarrow> nat \<Rightarrow> ffmpeg_cmd" where
  "segment_cmd e f t i =
     (if is_image f then image_cmd (path f) (segment_path e f t i)
      else video_cmd (path f) (segment_path e f t i))"

text \<open>The segments of a whole list of items, in the closed form the ordering claim is
  about: the supported items are taken in their order, each with its ordinal; the k-th of
  them is stamped with the k-th reading of the clock.\<close>

definition expected_segments :: "env \<Rightarrow> nat \<Rightarrow> nat \<Rightarrow> multer_file list \<Rightarrow> string list" where
  "expected_segments e c i ms =
     map (\<lambda>(k, (j, f)). segment_path e f (now e k) j)
       (enumerate c (filter (\<lambda>(j, f). supported f) (enumerate i ms)))"

definition concat_list_path :: "env \<Rightarrow> nat \<Rightarrow> string" where
  "concat_list_path e t = path_join (tempFolder e) (''concat-list-'' @ dec t @ ''.txt'')"

definition merged_path :: "env \<Rightarrow> nat \<Rightarrow> string" where
  "merged_path e t = path_join (tempFolder e) (''merged-'' @ dec t @ ''.mp4'')"

definition final_path :: "env \<Rightarrow> nat \<Rightarrow> string" where
  "final_path e t = path_join (outputFolder e) (''final-'' @ dec t @ ''.mp4'')"

text \<open>Summaries of a stretch of the run: every encoder invocation in it ended well; or
  it stopped at the first failing invocation; and no file that existed was removed.\<close>

definition ended :: "ffmpeg_cmd \<times> outcome \<Rightarrow> bool" where
  "ended x = (case snd x of Ended c \<Rightarrow> True | Errored err \<Rightarrow> False)"

definition ran_ok :: "world \<Rightarrow> world \<Rightarrow> bool" where
  "ran_ok w w' = (\<exists>new. invoked w' = invoked w @ new \<and> list_all ended new)"

definition ran_failed :: "string \<Rightarrow> world \<Rightarrow> world \<Rightarrow> bool" where
  "ran_failed err w w' =
     (\<exists>pre cmd. invoked w' = invoked w @ pre @ [(cmd, Errored err)] \<and> list_all ended pre)"

definition keeps_files :: "world \<Rightarrow> world \<Rightarrow> bool" where
  "keeps_files w w' = (\<forall>p. files w p \<noteq> None \<longrightarrow> files w' p \<noteq> None)"

text \<open>A stretch of the run that removes nothing: the files that existed, the outputs of
  the invocations that ended well and the files written are all on disk at its end.\<close>

definition built :: "world \<Rightarrow> world \<Rightarrow> bool" where
  "built w w' =
     (keeps_files w w' \<and>
      (\<exists>new. invoked w' = invoked w @ new \<and>
             (\<forall>x \<in> set new. ended x \<longrightarrow> files w' (save (fst x)) \<noteq> None)) \<and>
      (\<exists>new. written w' = written w @ new \<and> (\<forall>x \<in> set new. files w' (fst x) \<noteq> None)))"

section \<open>Names for the files of one run\<close>

text \<open>
  A path lies in a folder when it starts with the folder's name and a separator.  The
  paths the handler computes for one request depend only on the clock: the loop reads it
  once for every supported item, then the manifest, the merged track and the final
  artifact each read it once more.
\<close>

definition in_folder :: "string \<Rightarrow> string \<Rightarrow> bool" where
  "in_folder d p = startsWith p (path_join d [])"

definition segments_of :: "env \<Rightarrow> world \<Rightarrow> multer_file list \<Rightarrow> string list" where
  "segments_of e w ms = expected_segments e (clock w) 0 ms"

definition list_of :: "env \<Rightarrow> world \<Rightarrow> multer_file list \<Rightarrow> string" where
  "list_of e w ms = concat_list_path e (now e (clock w + length (filter supported ms)))"

definition merged_of :: "env \<Rightarrow> world \<Rightarrow> multer_file list \<Rightarrow> string" where
  "merged_of e w ms = merged_path e (now e (Suc (clock w + length (filter supported ms))))"

definition final_of :: "env \<Rightarrow> world \<Rightarrow> multer_file list \<Rightarrow> string" where
  "final_of e w ms = final_path e (now e (Suc (Suc (clock w + length (filter supported ms)))))"


section \<open>What is assumed of the external encoder\<close>

text \<open>
  The encoder is not part of the repository.  Claims about the properties of the files it
  writes are proved for every encoder that keeps the following four contracts, one for
  each command the handler builds; each contract spells the command out.  Durations are
  in milliseconds.
  \<^item> still image: looping the input for \<^verbatim>\<open>-t 3\<close> gives a silent clip of three seconds,
    1280 by 720, 30 frames a second, yuv420p;
  \<^item> video normalisation: the video stream of the result, if there is one, is 1280 by 720
    at 30 frames a second;
  \<^item> concatenation: when the list file names readable clips, the video stream of the
    result, if any, runs at 30 frames a second and has the frame size the listed clips
    share; when the listed clips are all silent, the result lasts as long as they do
    together;
  \<^item> mux: the video stream of the first input is copied.

  Nothing is assumed about the audio stream or the length of a muxed file.
\<close>

type_synonym encoder = "ffmpeg_cmd \<Rightarrow> (string \<rightharpoonup> content) \<Rightarrow> outcome"

definition still_contract :: "encoder \<Rightarrow> bool" where
  "still_contract tool =
     (\<forall>i out fsys c.
        tool \<lparr>inputs = [i], inputOptions = [''-loop 1''],
              outputOptions = [''-t 3'', ''-r 30''],
              videoFilters = [''scale=1280:720,format=yuv420p''],
              audioCodec = None, save = out\<rparr> fsys = Ended c \<longrightarrow>
        duration c = 3000 \<and> acodec c = None \<and>
        (\<exists>v. video c = Some v \<and> width v = 1280 \<and> height v = 720 \<and> fps v = 30 \<and>
             pix_fmt v = ''yuv420p''))"

definition scale_contract :: "encoder \<Rightarrow> bool" where
  "scale_contract tool =
     (\<forall>i out fsys c.
        tool \<lparr>inputs = [i], inputOptions = [],
              outputOptions = [''-r 30''],
              videoFilters = [''scale=1280:720,format=yuv420p''],
              audioCodec = Some ''aac'', save = out\<rparr> fsys = Ended c \<longrightarrow>
        (\<forall>v. video c = Some v \<longrightarrow> width v = 1280 \<and> height v = 720 \<and> fps v = 30))"

definition concat_contract :: "encoder \<Rightarrow> bool" where
  "concat_contract tool =
     (\<forall>lst out fsys c txt ps cs.
        tool \<lparr>inputs = [lst], inputOptions = [''-f concat'', ''-safe 0''],
              outputOptions = [''-c:v libx264'', ''-pix_fmt yuv420p'', ''-r 30''],
              videoFilters = [], audioCodec = None, save = out\<rparr> fsys = Ended c \<and>
        fsys lst = Some (Text txt) \<and> concat_script_paths txt = Some ps \<and>
        map fsys ps = map (\<lambda>x. Some (Clip x)) cs \<longrightarrow>
        ((\<forall>x \<in> set cs. acodec x = None) \<longrightarrow> duration c = sum_list (map duration cs)) \<and>
        (\<forall>v. video c = Some v \<longrightarrow>
           fps v = 30 \<and>
           (\<forall>W H. (\<forall>x \<in> set cs. \<forall>u. video x = Some u \<longrightarrow> width u = W \<and> height u = H) \<longrightarrow>
                  width v = W \<and> height v = H)))"

definition mux_contract :: "encoder \<Rightarrow> bool" where
  "mux_contract tool =
     (\<forall>a b out fsys c ca.
        tool \<lparr>inputs = [a, b], inputOptions = [],
              outputOptions = [''-c:v copy'', ''-c:a aac'', ''-shortest''],
              videoFilters = [], audioCodec = None, save = out\<rparr> fsys = Ended c \<and>
        fsys a = Some (Clip ca) \<longrightarrow>
        video c = video ca)"

section \<open>A reference encoder and sample requests\<close>

text \<open>
  To run the handler on concrete input: an encoder that keeps the four contracts (it
  answers the four commands of the handler and rejects every other), a server directory,
  a clock, uploads on disk and four requests.  \<open>req1\<close> mixes an image, a text file and a
  video; \<open>req2\<close> submits the same image twice; \<open>req3\<close> sends a text file as the audio
  track, which makes the mux fail; \<open>req4\<close> has no image and no video at all.
\<close>

definition hd720 :: vstream where
  "hd720 = \<lparr>width = 1280, height = 720, fps = 30, pix_fmt = ''yuv420p'', vcodec = ''libx264''\<rparr>"

definition clip_at :: "(string \<rightharpoonup> content) \<Rightarrow> string \<Rightarrow> clip option" where
  "clip_at fsys p = (case fsys p of Some (Clip c) \<Rightarrow> Some c | _ \<Rightarrow> None)"

definition stub_ffmpeg :: "ffmpeg_cmd \<Rightarrow> (string \<rightharpoonup> content) \<Rightarrow> outcome" where
  "stub_ffmpeg cmd fsys =
     (case inputs cmd of
        [i] \<Rightarrow>
          if cmd = image_cmd i (save cmd) then
            Ended \<lparr>duration = 3000, video = Some hd720, acodec = None\<rparr>
          else if cmd = video_cmd i (save cmd) then
            (case clip_at fsys i of
               Some c \<Rightarrow> Ended \<lparr>duration = duration c, video = Some hd720, acodec = Some ''aac''\<rparr>
             | None \<Rightarrow> Errored ''Invalid data found when processing input'')
          else if cmd = concat_cmd i (save cmd) then
            (case fsys i of
               Some (Text body) \<Rightarrow>
                 (case concat_script_paths body of
                    Some ps \<Rightarrow>
                      (case those (map (clip_at fsys) ps) of
                         Some (c # cs) \<Rightarrow>
                           Ended \<lparr>duration = sum_list (map duration (c # cs)),
                                  video = map_option (\<lambda>v. v\<lparr>fps := 30\<rparr>) (video c),
                                  acodec = None\<rparr>
                       | _ \<Rightarrow> Errored ''Impossible to open segment'')
                  | None \<Rightarrow> Errored ''Invalid list file'')
             | _ \<Rightarrow> Errored ''No such list file'')
          else Errored ''Unrecognized command''
      | [a, b] \<Rightarrow>
          if cmd = mux_cmd a b (save cmd) then
            (case (clip_at fsys a, clip_at fsys b) of
               (Some ca, Some cb) \<Rightarrow>
                 Ended \<lparr>duration = min (duration ca) (duration cb), video = video ca,
                        acodec = Some ''aac''\<rparr>
             | _ \<Rightarrow> Errored ''Invalid data found when processing input'')
          else Errored ''Unrecognized command''
      | _ \<Rightarrow> Errored ''Unrecognized command'')"

definition env_ok :: env where
  "env_ok = \<lparr>dirname = ''/srv'', now = (\<lambda>k. 1000 + k), ffmpeg = stub_ffmpeg\<rparr>"

text \<open>
  A second encoder, which keeps the four contracts too, for the length of a muxed file.
  The tool applies \<^verbatim>\<open>-shortest\<close> to the packets it writes, not to the millisecond, so
  a muxed file can run on for some frames after the shorter input has ended.
  \<open>late_ffmpeg\<close> is the reference encoder, except that a file written under
  \<^verbatim>\<open>-shortest\<close> lasts 67 ms longer, two frames at 30 frames a second.
\<close>

definition late_ffmpeg :: "ffmpeg_cmd \<Rightarrow> (string \<rightharpoonup> content) \<Rightarrow> outcome" where
  "late_ffmpeg cmd fsys =
     (case stub_ffmpeg cmd fsys of
        Ended c \<Rightarrow>
          if ''-shortest'' \<in> set (outputOptions cmd) then Ended (c\<lparr>duration := duration c + 67\<rparr>)
          else Ended c
      | Errored err \<Rightarrow> Errored err)"


definition upload_a :: multer_file where
  "upload_a = \<lparr>path = ''/srv/uploads/1-a.png'', mimetype = Some ''image/png''\<rparr>"

definition upload_b :: multer_file where
  "upload_b = \<lparr>path = ''/srv/uploads/1-b.txt'', mimetype = Some ''text/plain''\<rparr>"

definition upload_c :: multer_file where
  "upload_c = \<lparr>path = ''/srv/uploads/1-c.mp4'', mimetype = Some ''video/mp4''\<rparr>"

definition upload_s :: multer_file where
  "upload_s = \<lparr>path = ''/srv/uploads/1-s.webm'', mimetype = Some ''audio/webm''\<rparr>"

definition camera_clip :: clip where
  "camera_clip = \<lparr>duration = 5000,
     video = Some \<lparr>width = 640, height = 480, fps = 25, pix_fmt = ''yuv444p'', vcodec = ''vp9''\<rparr>,
     acodec = None\<rparr>"

definition recording :: clip where
  "recording = \<lparr>duration = 7000, video = None, acodec = Some ''opus''\<rparr>"

definition world1 :: world where
  "world1 = \<lparr>files = [''/srv/uploads/1-a.png'' \<mapsto> Blob, ''/srv/uploads/1-b.txt'' \<mapsto> Blob,
                       ''/srv/uploads/1-c.mp4'' \<mapsto> Clip camera_clip,
                       ''/srv/uploads/1-s.webm'' \<mapsto> Clip recording],
              clock = 0, console = [], invoked = [], written = []\<rparr>"

definition form1 :: upload_fields where
  "form1 = \<lparr>media = Some [upload_a, upload_b, upload_c], audio = Some [upload_s]\<rparr>"

definition req1 :: request where
  "req1 = \<lparr>req_files = Some form1\<rparr>"

definition form2 :: upload_fields where
  "form2 = \<lparr>media = Some [upload_a, upload_a], audio = Some [upload_s]\<rparr>"

definition req2 :: request where
  "req2 = \<lparr>req_files = Some form2\<rparr>"

definition form3 :: upload_fields where
  "form3 = \<lparr>media = Some [upload_a, upload_b, upload_c], audio = Some [upload_b]\<rparr>"

definition req3 :: request where
  "req3 = \<lparr>req_files = Some form3\<rparr>"

definition form4 :: upload_fields where
  "form4 = \<lparr>media = Some [upload_b, upload_s], audio = Some [upload_s]\<rparr>"

definition req4 :: request where
  "req4 = \<lparr>req_files = Some form4\<rparr>"

text \<open>The state in which the loop leaves \<open>world1\<close> for the media of \<open>req1\<close> (and of
  \<open>req3\<close>), and for the media of \<open>req2\<close>.\<close>

definition world1_loop :: world where
  "world1_loop =
     \<lparr>files = (files world1)
        (''/srv/temp/img-1000-0.mp4'' \<mapsto> Clip \<lparr>duration = 3000, video = Some hd720, acodec = None\<rparr>,
         ''/srv/temp/vid-1001-2.mp4'' \<mapsto> Clip \<lparr>duration = 5000, video = Some hd720, acodec = Some ''aac''\<rparr>),
      clock = 2, console = [skip_log upload_b],
      invoked = [(image_cmd ''/srv/uploads/1-a.png'' ''/srv/temp/img-1000-0.mp4'',
                  Ended \<lparr>duration = 3000, video = Some hd720, acodec = None\<rparr>),
                 (video_cmd ''/srv/uploads/1-c.mp4'' ''/srv/temp/vid-1001-2.mp4'',
                  Ended \<lparr>duration = 5000, video = Some hd720, acodec = Some ''aac''\<rparr>)],
      written = []\<rparr>"

definition world2_loop :: world where
  "world2_loop =
     \<lparr>files = (files world1)
        (''/srv/temp/img-1000-0.mp4'' \<mapsto> Clip \<lparr>duration = 3000, video = Some hd720, acodec = None\<rparr>,
         ''/srv/temp/img-1001-1.mp4'' \<mapsto> Clip \<lparr>duration = 3000, video = Some hd720, acodec = None\<rparr>),
      clock = 2, console = [],
      invoked = [(image_cmd ''/srv/uploads/1-a.png'' ''/srv/temp/img-1000-0.mp4'',
                  Ended \<lparr>duration = 3000, video = Some hd720, acodec = None\<rparr>),
                 (image_cmd ''/srv/uploads/1-a.png'' ''/srv/temp/img-1001-1.mp4'',
                  Ended \<lparr>duration = 3000, video = Some hd720, acodec = None\<rparr>)],
      written = []\<rparr>"

section \<open>Basic facts about the stages\<close>

lemma save_cmd [simp]:
  "save (image_cmd i p) = p" "save (video_cmd i p) = p"
  "save (concat_cmd l p) = p" "save (mux_cmd a b p) = p"
  by (simp_all add: image_cmd_def video_cmd_def concat_cmd_def mux_cmd_def)

lemma segment_loop_step:
  "segment_loop e i (f # ms) segs w =
     (if supported f then
        (case ffmpeg e (segment_cmd e f (now e (clock w)) i) (files w) of
           Ended c \<Rightarrow>
             segment_loop e (Suc i) ms (segs @ [segment_path e f (now e (clock w)) i])
               (w\<lparr>clock := Suc (clock w),
                  files := (files w)(segment_path e f (now e (clock w)) i \<mapsto> Clip c),
                  invoked := invoked w @ [(segment_cmd e f (now e (clock w)) i, Ended c)]\<rparr>)
         | Errored err \<Rightarrow>
             (Inl err, w\<lparr>clock := Suc (clock w),
                invoked := invoked w @ [(segment_cmd e f (now e (clock w)) i, Errored err)]\<rparr>))
      else segment_loop e (Suc i) ms segs (w\<lparr>console := console w @ [skip_log f]\<rparr>))"
proof (cases "is_image f")
  case True
  then show ?thesis
    by (simp add: supported_def is_image_def skip_log_def segment_path_def
        segment_cmd_def createVideoFromImage_def run_ffmpeg_def date_now_def
        Let_def split: outcome.splits)
next
  case False
  then show ?thesis
    by (simp add: supported_def is_image_def is_video_def skip_log_def segment_path_def
        segment_cmd_def normalizeVideo_def run_ffmpeg_def date_now_def console_log_def
        Let_def split: outcome.splits)
qed

declare segment_loop.simps(2) [simp del]

subsection \<open>The manifest is read back as it was written\<close>

lemma special_chars:
  "\<not> is_space backslash" "\<not> is_space quote_char" "backslash \<noteq> quote_char"
  "quote_char \<noteq> backslash" "\<not> is_eol quote_char" "\<not> is_eol backslash"
  by (simp_all add: is_space_def is_eol_def backslash_def quote_char_def newline_def
      carriage_return_def)

lemma token_out_quote: "token_out (quote_char # s) = token_in s"
  by (cases s) (simp_all add: special_chars)

lemma token_in_escape:
  "token_in (escape_quotes p @ quote_char # rest) =
     (case token_out rest of (t, r) \<Rightarrow> (p @ t, r))"
proof (induction p)
  case Nil
  show ?case by (simp split: prod.splits)
next
  case (Cons c p)
  show ?case
  proof (cases "c = quote_char")
    case True
    have "token_in (escape_quotes (c # p) @ quote_char # rest) =
          token_out (backslash # quote_char # quote_char # escape_quotes p @ quote_char # rest)"
      using True by simp
    also have "\<dots> = (case token_out (quote_char # escape_quotes p @ quote_char # rest) of
                        (t, r) \<Rightarrow> (quote_char # t, r))"
      by (simp add: special_chars)
    also have "token_out (quote_char # escape_quotes p @ quote_char # rest) =
               token_in (escape_quotes p @ quote_char # rest)"
      by (rule token_out_quote)
    finally show ?thesis
      using True Cons.IH by (simp split: prod.splits)
  next
    case False
    then show ?thesis using Cons.IH by (simp split: prod.splits)
  qed
qed

lemma parse_manifest_line: "parse_line (manifest_line p) = File p"
proof -
  have "token_out (quote_char # escape_quotes p @ [quote_char]) = token_in (escape_quotes p @ [quote_char])"
    by (rule token_out_quote)
  also have "\<dots> = (p, [])"
    using token_in_escape [of p "[]"] by simp
  finally have tok: "token_out (quote_char # escape_quotes p @ [quote_char]) = (p, [])" .
  show ?thesis
    using tok special_chars
    by (simp add: parse_line_def manifest_line_def is_space_def newline_def carriage_return_def)
qed

lemma eol_free_append [simp]: "eol_free (x @ y) = (eol_free x \<and> eol_free y)"
  by (auto simp: eol_free_def)

lemma eol_free_Cons [simp]: "eol_free (c # x) = (\<not> is_eol c \<and> eol_free x)"
  by (auto simp: eol_free_def)

lemma eol_free_Nil [simp]: "eol_free []"
  by (simp add: eol_free_def)

lemma lines_of_single: "eol_free l \<Longrightarrow> lines_of l = [l]"
  by (induction l) simp_all

lemma lines_of_line: "eol_free l \<Longrightarrow> lines_of (l @ newline # rest) = l # lines_of rest"
  by (induction l) (simp_all add: is_eol_def)

lemma lines_of_join:
  "ls \<noteq> [] \<Longrightarrow> \<forall>l \<in> set ls. eol_free l \<Longrightarrow> lines_of (join_lines ls) = ls"
proof (induction ls rule: join_lines.induct)
  case 1
  then show ?case by simp
next
  case (2 l)
  then show ?case by (simp add: lines_of_single)
next
  case (3 l k ls)
  then show ?case by (simp add: lines_of_line)
qed

lemma eol_free_escape: "eol_free (escape_quotes p) = eol_free p"
  by (induction p) (auto simp: special_chars)

lemma eol_free_manifest_line: "eol_free (manifest_line p) = eol_free p"
  by (simp add: manifest_line_def eol_free_escape is_eol_def newline_def carriage_return_def
      quote_char_def)

lemma script_files_manifest: "script_files (map manifest_line ps) = Some ps"
  by (induction ps) (simp_all add: parse_manifest_line)

lemma concat_script_roundtrip:
  assumes "\<forall>p \<in> set ps. eol_free p"
  shows "concat_script_paths (concatFileContent ps) = Some ps"
proof (cases "ps = []")
  case True
  then show ?thesis
    by (simp add: concat_script_paths_def concatFileContent_def parse_line_def)
next
  case False
  with assms have "lines_of (join_lines (map manifest_line ps)) = map manifest_line ps"
    by (intro lines_of_join) (auto simp: eol_free_manifest_line)
  then show ?thesis
    by (simp add: concat_script_paths_def concatFileContent_def script_files_manifest)
qed

subsection \<open>The loop over the media items\<close>

lemma ran_ok_refl: "ran_ok w w"
  by (simp add: ran_ok_def)

lemma ran_ok_trans: "ran_ok w w1 \<Longrightarrow> ran_ok w1 w2 \<Longrightarrow> ran_ok w w2"
  by (auto simp: ran_ok_def)

lemma ran_ok_then_failed: "ran_ok w w1 \<Longrightarrow> ran_failed err w1 w2 \<Longrightarrow> ran_failed err w w2"
  unfolding ran_ok_def ran_failed_def
  by (metis append.assoc list_all_append)

lemma keeps_files_refl: "keeps_files w w"
  by (simp add: keeps_files_def)

lemma keeps_files_trans: "keeps_files w w1 \<Longrightarrow> keeps_files w1 w2 \<Longrightarrow> keeps_files w w2"
  by (simp add: keeps_files_def)

lemma segment_loop_unsupported:
  "\<forall>f \<in> set ms. \<not> supported f \<Longrightarrow>
   segment_loop e i ms segs w = (Inr segs, w\<lparr>console := console w @ map skip_log ms\<rparr>)"
  by (induction ms arbitrary: i w) (simp_all add: segment_loop_step)

lemma expected_segments_Nil [simp]: "expected_segments e c i [] = []"
  by (simp add: expected_segments_def)

lemma expected_segments_Cons:
  "expected_segments e c i (f # ms) =
     (if supported f then segment_path e f (now e c) i # expected_segments e (Suc c) (Suc i) ms
      else expected_segments e c (Suc i) ms)"
  by (simp add: expected_segments_def)

lemma length_expected_segments:
  "length (expected_segments e c i ms) = length (filter supported ms)"
  by (induction ms arbitrary: c i) (simp_all add: expected_segments_Cons)

lemma segment_loop_segments:
  "segment_loop e i ms segs w = (Inr out, w') \<Longrightarrow>
   out = segs @ expected_segments e (clock w) i ms \<and>
   clock w' = clock w + length (filter supported ms)"
proof (induction ms arbitrary: i segs w)
  case Nil
  then show ?case by simp
next
  case (Cons f ms)
  show ?case
  proof (cases "supported f")
    case True
    with Cons.prems obtain c where
      run: "segment_loop e (Suc i) ms (segs @ [segment_path e f (now e (clock w)) i])
              (w\<lparr>clock := Suc (clock w),
                 files := (files w)(segment_path e f (now e (clock w)) i \<mapsto> Clip c),
                 invoked := invoked w @ [(segment_cmd e f (now e (clock w)) i, Ended c)]\<rparr>)
            = (Inr out, w')"
      by (auto simp: segment_loop_step split: outcome.splits)
    from Cons.IH [OF run] True show ?thesis
      by (simp add: expected_segments_Cons)
  next
    case False
    with Cons.prems have
      run: "segment_loop e (Suc i) ms segs (w\<lparr>console := console w @ [skip_log f]\<rparr>) = (Inr out, w')"
      by (simp add: segment_loop_step)
    from Cons.IH [OF run] False show ?thesis
      by (simp add: expected_segments_Cons)
  qed
qed

lemma segment_loop_summary:
  "segment_loop e i ms segs w = (r, w') \<Longrightarrow>
   keeps_files w w' \<and> written w' = written w \<and>
   (case r of Inr out \<Rightarrow> ran_ok w w' | Inl err \<Rightarrow> ran_failed err w w')"
proof (induction ms arbitrary: i segs w)
  case Nil
  then show ?case by (auto simp: keeps_files_refl ran_ok_refl)
next
  case (Cons f ms)
  show ?case
  proof (cases "supported f")
    case False
    with Cons.prems have
      run: "segment_loop e (Suc i) ms segs (w\<lparr>console := console w @ [skip_log f]\<rparr>) = (r, w')"
      by (simp add: segment_loop_step)
    from Cons.IH [OF run] show ?thesis
      by (simp add: keeps_files_def ran_ok_def ran_failed_def split: sum.splits)
  next
    case True
    let ?cmd = "segment_cmd e f (now e (clock w)) i"
    show ?thesis
    proof (cases "ffmpeg e ?cmd (files w)")
      case (Errored err)
      with True Cons.prems have
        "r = Inl err" "w' = w\<lparr>clock := Suc (clock w), invoked := invoked w @ [(?cmd, Errored err)]\<rparr>"
        by (simp_all add: segment_loop_step)
      then show ?thesis
        by (auto simp: keeps_files_def ran_failed_def intro: exI [of _ "[]"])
    next
      case (Ended c)
      let ?w1 = "w\<lparr>clock := Suc (clock w),
                 files := (files w)(segment_path e f (now e (clock w)) i \<mapsto> Clip c),
                 invoked := invoked w @ [(?cmd, Ended c)]\<rparr>"
      from Ended True Cons.prems have
        run: "segment_loop e (Suc i) ms (segs @ [segment_path e f (now e (clock w)) i]) ?w1 = (r, w')"
        by (simp add: segment_loop_step)
      have step: "keeps_files w ?w1" "ran_ok w ?w1"
        by (simp_all add: keeps_files_def ran_ok_def ended_def)
      from Cons.IH [OF run] step show ?thesis
        by (auto split: sum.splits intro: keeps_files_trans ran_ok_trans ran_ok_then_failed)
    qed
  qed
qed

subsection \<open>Concatenation, mux and the whole handler\<close>

lemma concat_stage_Inr:
  assumes "concat_stage e segs w = (Inr (lst, merged), w')"
  shows "lst = concat_list_path e (now e (clock w))"
    and "merged = merged_path e (now e (Suc (clock w)))"
    and "\<exists>c. ffmpeg e (concat_cmd lst merged) ((files w)(lst \<mapsto> Text (concatFileContent segs))) = Ended c \<and>
             files w' = (files w)(lst \<mapsto> Text (concatFileContent segs), merged \<mapsto> Clip c) \<and>
             invoked w' = invoked w @ [(concat_cmd lst merged, Ended c)]"
    and "written w' = written w @ [(lst, concatFileContent segs)]"
    and "clock w' = Suc (Suc (clock w))"
    and "console w' = console w @
            [Log [Txt ''FFmpeg concat cmd:'', CmdLine (concat_cmd lst merged)],
             Log [Txt ''Concatenation finished:'', Txt merged]]"
  using assms
  by (auto simp: concat_stage_def date_now_def writeFileSync_def console_log_def
      console_error_def run_ffmpeg_def concat_list_path_def merged_path_def Let_def
      split: outcome.splits)

lemma concat_stage_Inl:
  assumes "concat_stage e segs w = (Inl err, w')"
  shows "files w' = (files w)(concat_list_path e (now e (clock w)) \<mapsto> Text (concatFileContent segs))"
    and "\<exists>cmd. invoked w' = invoked w @ [(cmd, Errored err)]"
    and "written w' = written w @ [(concat_list_path e (now e (clock w)), concatFileContent segs)]"
    and "\<exists>l. console w' = console w @ [l, LogError [Txt ''FFmpeg concat error:'', ErrObj err]]"
  using assms
  by (auto simp: concat_stage_def date_now_def writeFileSync_def console_log_def
      console_error_def run_ffmpeg_def concat_list_path_def merged_path_def Let_def
      split: outcome.splits)

lemma mux_stage_Inr:
  assumes "mux_stage e merged a w = (Inr out, w')"
  shows "out = final_path e (now e (clock w))"
    and "\<exists>c. ffmpeg e (mux_cmd merged a out) (files w) = Ended c \<and>
             files w' = (files w)(out \<mapsto> Clip c) \<and>
             invoked w' = invoked w @ [(mux_cmd merged a out, Ended c)]"
    and "written w' = written w"
    and "clock w' = Suc (clock w)"
    and "console w' = console w @
            [Log [Txt ''FFmpeg merge cmd:'', CmdLine (mux_cmd merged a out)],
             Log [Txt ''Final merge finished:'', Txt out]]"
  using assms
  by (auto simp: mux_stage_def date_now_def console_log_def
      console_error_def run_ffmpeg_def final_path_def Let_def
      split: outcome.splits)

lemma mux_stage_Inl:
  assumes "mux_stage e merged a w = (Inl err, w')"
  shows "files w' = files w"
    and "\<exists>cmd. invoked w' = invoked w @ [(cmd, Errored err)]"
    and "written w' = written w"
    and "\<exists>l. console w' = console w @ [l, LogError [Txt ''FFmpeg merge error:'', ErrObj err]]"
  using assms
  by (auto simp: mux_stage_def date_now_def console_log_def
      console_error_def run_ffmpeg_def final_path_def Let_def
      split: outcome.splits)

text \<open>The shape of every run of the \<^verbatim>\<open>try\<close> body.\<close>

lemma try_body_cases:
  assumes "try_body e ms a w = (r, w')"
  obtains
    (loop_failed) err where "r = Inl err" "segment_loop e 0 ms [] w = (Inl err, w')"
  | (no_segments) "r = Inr (Json 400 ''No valid media (image/video) files to process.'')"
      "segment_loop e 0 ms [] w = (Inr [], w')"
  | (concat_failed) err segs w1 where "r = Inl err" "segs \<noteq> []"
      "segment_loop e 0 ms [] w = (Inr segs, w1)" "concat_stage e segs w1 = (Inl err, w')"
  | (mux_failed) err segs w1 lst merged w2 where "r = Inl err" "segs \<noteq> []"
      "segment_loop e 0 ms [] w = (Inr segs, w1)"
      "concat_stage e segs w1 = (Inr (lst, merged), w2)"
      "mux_stage e merged (path a) w2 = (Inl err, w')"
  | (delivered) segs w1 lst merged w2 out w3 where
      "r = Inr (Download download_headers out)" "segs \<noteq> []"
      "segment_loop e 0 ms [] w = (Inr segs, w1)"
      "concat_stage e segs w1 = (Inr (lst, merged), w2)"
      "mux_stage e merged (path a) w2 = (Inr out, w3)"
      "w' = cleanup a ms segs lst w3"
  using assms unfolding try_body_def
  by (auto split: prod.splits sum.splits if_splits)

lemma create_video_Download:
  assumes "fst (create_video e req w) = Download h out"
  obtains fs ms a as segs w1 lst merged w2 w3 where
    "media fs = Some ms" "ms \<noteq> []" "audio fs = Some (a # as)"
    "h = download_headers" "segs \<noteq> []"
    "segment_loop e 0 ms [] w = (Inr segs, w1)"
    "concat_stage e segs w1 = (Inr (lst, merged), w2)"
    "mux_stage e merged (path a) w2 = (Inr out, w3)"
    "snd (create_video e req w) = cleanup a ms segs lst w3"
    "req_files req = Some fs"
proof -
  from assms obtain fs ms a as where
    req: "media fs = Some ms" "ms \<noteq> []" "audio fs = Some (a # as)"
    and rf: "req_files req = Some fs"
    by (auto simp: create_video_def split: option.splits if_splits list.splits)
  obtain r w' where tb: "try_body e ms a w = (r, w')"
    by (cases "try_body e ms a w")
  from assms req rf tb have r: "r = Inr (Download h out)" and w': "snd (create_video e req w) = w'"
    by (auto simp: create_video_def split: sum.splits)
  from tb r show ?thesis
    by (cases rule: try_body_cases) (auto intro: that [OF req] simp: w' rf)
qed

lemma unlink_existing_fields [simp]:
  "files (unlink_existing p w) = (files w)(p := None)"
  "invoked (unlink_existing p w) = invoked w"
  "written (unlink_existing p w) = written w"
  "console (unlink_existing p w) = console w"
  "clock (unlink_existing p w) = clock w"
  by (auto simp: unlink_existing_def existsSync_def)

lemma fold_unlink_fields [simp]:
  "files (fold unlink_existing ps w) = (\<lambda>p. if p \<in> set ps then None else files w p)"
  "invoked (fold unlink_existing ps w) = invoked w"
  "written (fold unlink_existing ps w) = written w"
  "console (fold unlink_existing ps w) = console w"
  by (induction ps arbitrary: w) (auto simp: fun_eq_iff)

lemma fold_unlink_path: "fold (\<lambda>f. unlink_existing (path f)) ms w = fold unlink_existing (map path ms) w"
  by (simp add: fold_map comp_def)

lemma cleanup_frame [simp]:
  "invoked (cleanup a ms segs lst w) = invoked w"
  "written (cleanup a ms segs lst w) = written w"
  by (simp_all add: cleanup_def console_error_def fold_unlink_path Let_def)

lemma cleanup_files:
  "files w (path a) \<noteq> None \<Longrightarrow>
   files (cleanup a ms segs lst w) =
     (\<lambda>p. if p = path a \<or> p \<in> path ` set ms \<or> p \<in> set segs \<or> p = lst then None else files w p)"
  by (auto simp: cleanup_def existsSync_def fold_unlink_path Let_def fun_eq_iff)

lemma cleanup_files_aborted:
  "files w (path a) = None \<Longrightarrow> files (cleanup a ms segs lst w) = files w"
  by (simp add: cleanup_def existsSync_def console_error_def)

lemma concat_stage_summary:
  "concat_stage e segs w = (r, w') \<Longrightarrow>
   keeps_files w w' \<and> (case r of Inr x \<Rightarrow> ran_ok w w' | Inl err \<Rightarrow> ran_failed err w w')"
proof (cases r)
  case (Inl err)
  assume "concat_stage e segs w = (r, w')"
  with Inl have run: "concat_stage e segs w = (Inl err, w')" by simp
  from concat_stage_Inl(1,2) [OF run] Inl show ?thesis
    by (auto simp: keeps_files_def ran_failed_def intro: exI [of _ "[]"])
next
  case (Inr x)
  assume "concat_stage e segs w = (r, w')"
  with Inr have run: "concat_stage e segs w = (Inr (fst x, snd x), w')" by simp
  from concat_stage_Inr(3) [OF run] Inr show ?thesis
    by (auto simp: keeps_files_def ran_ok_def ended_def)
qed

lemma mux_stage_summary:
  "mux_stage e merged a w = (r, w') \<Longrightarrow>
   keeps_files w w' \<and> (case r of Inr x \<Rightarrow> ran_ok w w' | Inl err \<Rightarrow> ran_failed err w w')"
proof (cases r)
  case (Inl err)
  assume "mux_stage e merged a w = (r, w')"
  with Inl have run: "mux_stage e merged a w = (Inl err, w')" by simp
  from mux_stage_Inl(1,2) [OF run] Inl show ?thesis
    by (auto simp: keeps_files_def ran_failed_def intro: exI [of _ "[]"])
next
  case (Inr x)
  assume "mux_stage e merged a w = (r, w')"
  with Inr have run: "mux_stage e merged a w = (Inr x, w')" by simp
  from mux_stage_Inr(2) [OF run] Inr show ?thesis
    by (auto simp: keeps_files_def ran_ok_def ended_def)
qed

lemma try_body_summary:
  assumes "try_body e ms a w = (r, w')"
  shows "case r of Inl err \<Rightarrow> ran_failed err w w' \<and> keeps_files w w' | Inr resp \<Rightarrow> ran_ok w w'"
  using assms
proof (cases rule: try_body_cases)
  case (loop_failed err)
  with segment_loop_summary [OF loop_failed(2)] show ?thesis by simp
next
  case no_segments
  with segment_loop_summary [OF no_segments(2)] show ?thesis by simp
next
  case (concat_failed err segs w1)
  with segment_loop_summary [OF concat_failed(3)] concat_stage_summary [OF concat_failed(4)]
  show ?thesis by (auto intro: ran_ok_then_failed keeps_files_trans)
next
  case (mux_failed err segs w1 lst merged w2)
  with segment_loop_summary [OF mux_failed(3)] concat_stage_summary [OF mux_failed(4)]
    mux_stage_summary [OF mux_failed(5)]
  show ?thesis by (auto intro: ran_ok_then_failed ran_ok_trans keeps_files_trans)
next
  case (delivered segs w1 lst merged w2 out w3)
  with segment_loop_summary [OF delivered(3)] concat_stage_summary [OF delivered(4)]
    mux_stage_summary [OF delivered(5)]
  have "ran_ok w w3" by (auto intro: ran_ok_trans)
  with delivered show ?thesis by (simp add: ran_ok_def)
qed


lemma built_refl: "built w w"
  by (simp add: built_def keeps_files_def)

lemma built_trans:
  assumes "built w w1" and "built w1 w2"
  shows "built w w2"
proof -
  from assms(1) obtain n1 m1 where 1: "keeps_files w w1"
    "invoked w1 = invoked w @ n1" "\<forall>x \<in> set n1. ended x \<longrightarrow> files w1 (save (fst x)) \<noteq> None"
    "written w1 = written w @ m1" "\<forall>x \<in> set m1. files w1 (fst x) \<noteq> None"
    unfolding built_def by blast
  from assms(2) obtain n2 m2 where 2: "keeps_files w1 w2"
    "invoked w2 = invoked w1 @ n2" "\<forall>x \<in> set n2. ended x \<longrightarrow> files w2 (save (fst x)) \<noteq> None"
    "written w2 = written w1 @ m2" "\<forall>x \<in> set m2. files w2 (fst x) \<noteq> None"
    unfolding built_def by blast
  have k: "keeps_files w w2"
    using 1(1) 2(1) by (rule keeps_files_trans)
  have i: "invoked w2 = invoked w @ (n1 @ n2)"
    "\<forall>x \<in> set (n1 @ n2). ended x \<longrightarrow> files w2 (save (fst x)) \<noteq> None"
    using 1(2,3) 2(1,2,3) by (auto simp: keeps_files_def)
  have wr: "written w2 = written w @ (m1 @ m2)"
    "\<forall>x \<in> set (m1 @ m2). files w2 (fst x) \<noteq> None"
    using 1(4,5) 2(1,4,5) by (auto simp: keeps_files_def)
  from k i wr show ?thesis
    unfolding built_def by blast
qed

lemma built_step:
  assumes "files w' = files w \<or> (\<exists>p c. files w' = (files w)(p \<mapsto> c))"
    and "invoked w' = invoked w" and "written w' = written w"
  shows "built w w'"
  using assms by (auto simp: built_def keeps_files_def)

lemma segment_loop_built: "segment_loop e i ms segs w = (r, w') \<Longrightarrow> built w w'"
proof (induction ms arbitrary: i segs w)
  case Nil
  then show ?case by (simp add: built_refl)
next
  case (Cons f ms)
  show ?case
  proof (cases "supported f")
    case False
    with Cons.prems have
      run: "segment_loop e (Suc i) ms segs (w\<lparr>console := console w @ [skip_log f]\<rparr>) = (r, w')"
      by (simp add: segment_loop_step)
    have "built w (w\<lparr>console := console w @ [skip_log f]\<rparr>)"
      by (rule built_step) simp_all
    with Cons.IH [OF run] show ?thesis by (blast intro: built_trans)
  next
    case True
    let ?t = "now e (clock w)"
    let ?cmd = "segment_cmd e f ?t i"
    show ?thesis
    proof (cases "ffmpeg e ?cmd (files w)")
      case (Errored err)
      with True Cons.prems have
        "w' = w\<lparr>clock := Suc (clock w), invoked := invoked w @ [(?cmd, Errored err)]\<rparr>"
        by (simp add: segment_loop_step)
      then show ?thesis
        by (simp add: built_def keeps_files_def ended_def)
    next
      case (Ended c)
      let ?w1 = "w\<lparr>clock := Suc (clock w),
                 files := (files w)(segment_path e f ?t i \<mapsto> Clip c),
                 invoked := invoked w @ [(?cmd, Ended c)]\<rparr>"
      from Ended True Cons.prems have
        run: "segment_loop e (Suc i) ms (segs @ [segment_path e f ?t i]) ?w1 = (r, w')"
        by (simp add: segment_loop_step)
      have "save ?cmd = segment_path e f ?t i"
        by (simp add: segment_cmd_def)
      then have "built w ?w1"
        by (simp add: built_def keeps_files_def)
      with Cons.IH [OF run] show ?thesis by (blast intro: built_trans)
    qed
  qed
qed

lemma concat_stage_built: "concat_stage e segs w = (r, w') \<Longrightarrow> built w w'"
proof (cases r)
  case (Inl err)
  assume "concat_stage e segs w = (r, w')"
  with Inl have run: "concat_stage e segs w = (Inl err, w')" by simp
  from concat_stage_Inl(1,2,3) [OF run] show ?thesis
    by (auto simp: built_def keeps_files_def ended_def)
next
  case (Inr x)
  assume "concat_stage e segs w = (r, w')"
  with Inr have run: "concat_stage e segs w = (Inr (fst x, snd x), w')" by simp
  from concat_stage_Inr(3,4) [OF run] show ?thesis
    by (auto simp: built_def keeps_files_def)
qed

lemma mux_stage_built: "mux_stage e merged a w = (r, w') \<Longrightarrow> built w w'"
proof (cases r)
  case (Inl err)
  assume "mux_stage e merged a w = (r, w')"
  with Inl have run: "mux_stage e merged a w = (Inl err, w')" by simp
  from mux_stage_Inl(1,2,3) [OF run] show ?thesis
    by (auto simp: built_def keeps_files_def ended_def)
next
  case (Inr x)
  assume "mux_stage e merged a w = (r, w')"
  with Inr have run: "mux_stage e merged a w = (Inr x, w')" by simp
  from mux_stage_Inr(2,3) [OF run] show ?thesis
    by (auto simp: built_def keeps_files_def)
qed

lemma try_body_failed_built:
  assumes "try_body e ms a w = (Inl err, w')"
  shows "built w w'"
  using assms
proof (cases rule: try_body_cases)
  case (loop_failed err')
  then show ?thesis by (simp add: segment_loop_built)
next
  case no_segments
  then show ?thesis by simp
next
  case (concat_failed err' segs w1)
  from segment_loop_built [OF concat_failed(3)] concat_stage_built [OF concat_failed(4)]
  show ?thesis by (rule built_trans)
next
  case (mux_failed err' segs w1 lst merged w2)
  from segment_loop_built [OF mux_failed(3)] concat_stage_built [OF mux_failed(4)]
  have "built w w2" by (rule built_trans)
  from this mux_stage_built [OF mux_failed(5)] show ?thesis by (rule built_trans)
next
  case (delivered segs w1 lst merged w2 out w3)
  then show ?thesis by simp
qed

subsection \<open>Paths of the three folders never coincide\<close>

lemma folder_join:
  "path_join (uploadFolder e) n = path_join (dirname e) [] @ ''uploads/'' @ n"
  "path_join (tempFolder e) n = path_join (dirname e) [] @ ''temp/'' @ n"
  "path_join (outputFolder e) n = path_join (dirname e) [] @ ''outputs/'' @ n"
  by (simp_all add: path_join_def uploadFolder_def tempFolder_def outputFolder_def)

lemma startsWith_append: "startsWith (b @ x) (b @ y) = startsWith x y"
  by (simp add: startsWith_def)

lemma upload_not_temp: "in_folder (uploadFolder e) p \<Longrightarrow> p \<noteq> path_join (tempFolder e) n"
  by (auto simp: in_folder_def folder_join startsWith_append) (simp add: startsWith_def)

lemma upload_not_output: "in_folder (uploadFolder e) p \<Longrightarrow> p \<noteq> path_join (outputFolder e) n"
  by (auto simp: in_folder_def folder_join startsWith_append) (simp add: startsWith_def)

lemma temp_not_output: "path_join (tempFolder e) n \<noteq> path_join (outputFolder e) k"
  by (simp add: folder_join)

lemma segment_not_merged: "segment_path e f t i \<noteq> merged_path e t'"
  by (simp add: segment_path_def merged_path_def folder_join)

lemma segment_not_list: "segment_path e f t i \<noteq> concat_list_path e t'"
  by (simp add: segment_path_def concat_list_path_def folder_join)

lemma list_not_merged: "concat_list_path e t \<noteq> merged_path e t'"
  by (simp add: concat_list_path_def merged_path_def folder_join)

lemma expected_segments_shape:
  "p \<in> set (expected_segments e c i ms) \<Longrightarrow> \<exists>f t j. p = segment_path e f t j"
  by (auto simp: expected_segments_def)

subsection \<open>A delivered run, stage by stage\<close>

lemma delivered_run:
  assumes "fst (create_video e req w) = Download h out"
    and "req_files req = Some fs" and "media fs = Some ms" and "audio fs = Some (a # as)"
  obtains (run) w1 cm w3 cf where
    "segment_loop e 0 ms [] w = (Inr (segments_of e w ms), w1)"
    "segments_of e w ms \<noteq> []"
    "ffmpeg e (concat_cmd (list_of e w ms) (merged_of e w ms))
       ((files w1)(list_of e w ms \<mapsto> Text (concatFileContent (segments_of e w ms)))) = Ended cm"
    "ffmpeg e (mux_cmd (merged_of e w ms) (path a) out)
       ((files w1)(list_of e w ms \<mapsto> Text (concatFileContent (segments_of e w ms)),
                   merged_of e w ms \<mapsto> Clip cm)) = Ended cf"
    "out = final_of e w ms"
    "files w3 = (files w1)(list_of e w ms \<mapsto> Text (concatFileContent (segments_of e w ms)),
                          merged_of e w ms \<mapsto> Clip cm, out \<mapsto> Clip cf)"
    "invoked w3 = invoked w1 @ [(concat_cmd (list_of e w ms) (merged_of e w ms), Ended cm),
                                (mux_cmd (merged_of e w ms) (path a) out, Ended cf)]"
    "snd (create_video e req w) = cleanup a ms (segments_of e w ms) (list_of e w ms) w3"
proof -
  from assms(1) obtain fs' ms' a' as' segs w1 lst merged w2 w3 where run:
    "media fs' = Some ms'" "audio fs' = Some (a' # as')" "segs \<noteq> []"
    "segment_loop e 0 ms' [] w = (Inr segs, w1)"
    "concat_stage e segs w1 = (Inr (lst, merged), w2)"
    "mux_stage e merged (path a') w2 = (Inr out, w3)"
    "snd (create_video e req w) = cleanup a' ms' segs lst w3"
    "req_files req = Some fs'"
    by (rule create_video_Download)
  from run(8) assms(2) have "fs' = fs" by simp
  with run(1,2) assms(3,4) have same: "ms' = ms" "a' = a" by simp_all
  from segment_loop_segments [OF run(4)] same have
    segs: "segs = segments_of e w ms" and clk: "clock w1 = clock w + length (filter supported ms)"
    by (simp_all add: segments_of_def)
  from concat_stage_Inr [OF run(5)] clk have
    lst: "lst = list_of e w ms" and merged: "merged = merged_of e w ms"
    and clk2: "clock w2 = Suc (Suc (clock w + length (filter supported ms)))"
    by (simp_all add: list_of_def merged_of_def)
  from concat_stage_Inr(3) [OF run(5)] obtain cm where cm:
    "ffmpeg e (concat_cmd lst merged) ((files w1)(lst \<mapsto> Text (concatFileContent segs))) = Ended cm"
    "files w2 = (files w1)(lst \<mapsto> Text (concatFileContent segs), merged \<mapsto> Clip cm)"
    "invoked w2 = invoked w1 @ [(concat_cmd lst merged, Ended cm)]"
    by blast
  from mux_stage_Inr(2) [OF run(6)] obtain cf where cf:
    "ffmpeg e (mux_cmd merged (path a') out) (files w2) = Ended cf"
    "files w3 = (files w2)(out \<mapsto> Clip cf)"
    "invoked w3 = invoked w2 @ [(mux_cmd merged (path a') out, Ended cf)]"
    by blast
  from mux_stage_Inr(1) [OF run(6)] clk2 have out: "out = final_of e w ms"
    by (simp add: final_of_def)
  show ?thesis
    using run(3,4,7) cm cf out
    unfolding same segs lst merged
    by (intro that [of w1 cm cf w3]) simp_all
qed

lemma segments_in_temp:
  "p \<in> set (segments_of e w ms) \<Longrightarrow> \<exists>n. p = path_join (tempFolder e) n"
  by (auto simp: segments_of_def expected_segments_def segment_path_def)

lemma run_paths_in_temp:
  "\<exists>n. list_of e w ms = path_join (tempFolder e) n"
  "\<exists>n. merged_of e w ms = path_join (tempFolder e) n"
  "\<exists>n. final_of e w ms = path_join (outputFolder e) n"
  by (auto simp: list_of_def merged_of_def final_of_def concat_list_path_def merged_path_def final_path_def)

lemma merged_not_segment: "merged_of e w ms \<notin> set (segments_of e w ms')"
  by (auto simp: merged_of_def segments_of_def dest!: expected_segments_shape simp: segment_not_merged [symmetric])

lemma list_not_segment: "list_of e w ms \<notin> set (segments_of e w ms')"
  by (auto simp: list_of_def segments_of_def dest!: expected_segments_shape simp: segment_not_list [symmetric])

lemma merged_not_list: "merged_of e w ms \<noteq> list_of e w ms'"
  by (simp add: merged_of_def list_of_def list_not_merged [symmetric])

lemma digit_cases: "d < 10 \<Longrightarrow> digit d \<in> set ''0123456789''"
  unfolding digit_def by (rule nth_mem) simp

lemma digit_not_eol: "d < 10 \<Longrightarrow> \<not> is_eol (digit d)"
proof
  assume "d < 10" "is_eol (digit d)"
  from digit_cases [OF this(1)] this(2) show False
    by (auto simp: is_eol_def newline_def carriage_return_def)
qed

lemma eol_free_dec: "eol_free (dec n)"
proof (induction n rule: dec.induct)
  case (1 n)
  show ?case
  proof (cases "n < 10")
    case True
    then show ?thesis
      by (subst dec.simps) (simp add: eol_free_def digit_not_eol)
  next
    case False
    with 1 have "eol_free (dec (n div 10))" by simp
    with False show ?thesis
      by (subst dec.simps) (simp add: eol_free_def digit_not_eol)
  qed
qed

lemma eol_free_path_join:
  "eol_free d \<Longrightarrow> eol_free n \<Longrightarrow> eol_free (path_join d n)"
  by (simp add: path_join_def is_eol_def newline_def carriage_return_def)

lemma eol_free_segment: "eol_free (dirname e) \<Longrightarrow> eol_free (segment_path e f t i)"
  by (simp add: segment_path_def tempFolder_def eol_free_path_join eol_free_dec
      is_eol_def newline_def carriage_return_def)

lemma eol_free_segments:
  "eol_free (dirname e) \<Longrightarrow> \<forall>p \<in> set (segments_of e w ms). eol_free p"
  by (auto simp: segments_of_def dest!: expected_segments_shape intro: eol_free_segment)

lemma still_contractD:
  assumes "still_contract tool" and "tool (image_cmd i out) fsys = Ended c"
  shows "duration c = 3000 \<and> acodec c = None \<and>
        (\<exists>v. video c = Some v \<and> width v = 1280 \<and> height v = 720 \<and> fps v = 30 \<and>
             pix_fmt v = ''yuv420p'')"
  using assms(2) assms(1) [unfolded still_contract_def, rule_format, of i out fsys c]
  by (simp add: image_cmd_def)

lemma scale_contractD:
  assumes "scale_contract tool" and "tool (video_cmd i out) fsys = Ended c"
  shows "\<forall>v. video c = Some v \<longrightarrow> width v = 1280 \<and> height v = 720 \<and> fps v = 30"
  using assms(2) assms(1) [unfolded scale_contract_def, rule_format, of i out fsys c]
  by (simp add: video_cmd_def)

lemma mux_contractD:
  assumes "mux_contract tool" and "tool (mux_cmd a b out) fsys = Ended c"
    and "fsys a = Some (Clip ca)"
  shows "video c = video ca"
  using assms(1) [unfolded mux_contract_def, rule_format, of a b out fsys c ca] assms(2,3)
  by (simp add: mux_cmd_def)

lemma concat_contractD:
  assumes "concat_contract tool" and "tool (concat_cmd lst out) fsys = Ended c"
    and "fsys lst = Some (Text body)" and "concat_script_paths body = Some ps"
    and "map fsys ps = map (\<lambda>x. Some (Clip x)) cs"
  shows "((\<forall>x \<in> set cs. acodec x = None) \<longrightarrow> duration c = sum_list (map duration cs)) \<and>
        (\<forall>v. video c = Some v \<longrightarrow>
           fps v = 30 \<and>
           (\<forall>W H. (\<forall>x \<in> set cs. \<forall>u. video x = Some u \<longrightarrow> width u = W \<and> height u = H) \<longrightarrow>
                  width v = W \<and> height v = H))"
proof -
  from assms(2) have run: "tool \<lparr>inputs = [lst], inputOptions = [''-f concat'', ''-safe 0''],
              outputOptions = [''-c:v libx264'', ''-pix_fmt yuv420p'', ''-r 30''],
              videoFilters = [], audioCodec = None, save = out\<rparr> fsys = Ended c"
    by (simp only: concat_cmd_def)
  from assms(1) have "\<forall>lst out fsys c body ps cs.
        tool \<lparr>inputs = [lst], inputOptions = [''-f concat'', ''-safe 0''],
              outputOptions = [''-c:v libx264'', ''-pix_fmt yuv420p'', ''-r 30''],
              videoFilters = [], audioCodec = None, save = out\<rparr> fsys = Ended c \<and>
        fsys lst = Some (Text body) \<and> concat_script_paths body = Some ps \<and>
        map fsys ps = map (\<lambda>x. Some (Clip x)) cs \<longrightarrow>
        ((\<forall>x \<in> set cs. acodec x = None) \<longrightarrow> duration c = sum_list (map duration cs)) \<and>
        (\<forall>v. video c = Some v \<longrightarrow>
           fps v = 30 \<and>
           (\<forall>W H. (\<forall>x \<in> set cs. \<forall>u. video x = Some u \<longrightarrow> width u = W \<and> height u = H) \<longrightarrow>
                  width v = W \<and> height v = H))"
    by (simp only: concat_contract_def)
  then show ?thesis
    using run assms(3-5) by (elim allE impE) (intro conjI, assumption+)
qed

lemma segment_loop_clips:
  assumes "segment_loop e i ms segs w = (Inr out, w')"
    and "\<forall>p \<in> set segs. \<exists>c. files w p = Some (Clip c) \<and> P c"
    and "\<forall>f \<in> set ms. \<forall>t j fsys c. ffmpeg e (segment_cmd e f t j) fsys = Ended c \<longrightarrow> P c"
  shows "\<forall>p \<in> set out. \<exists>c. files w' p = Some (Clip c) \<and> P c"
  using assms
proof (induction ms arbitrary: i segs w)
  case Nil
  then show ?case by simp
next
  case (Cons f ms)
  show ?case
  proof (cases "supported f")
    case False
    with Cons.prems(1) have
      run: "segment_loop e (Suc i) ms segs (w\<lparr>console := console w @ [skip_log f]\<rparr>) = (Inr out, w')"
      by (simp add: segment_loop_step)
    show ?thesis
      by (rule Cons.IH [OF run]) (use Cons.prems in auto)
  next
    case True
    let ?t = "now e (clock w)"
    from True Cons.prems(1) obtain c where
      c: "ffmpeg e (segment_cmd e f ?t i) (files w) = Ended c" and
      run: "segment_loop e (Suc i) ms (segs @ [segment_path e f ?t i])
              (w\<lparr>clock := Suc (clock w),
                 files := (files w)(segment_path e f ?t i \<mapsto> Clip c),
                 invoked := invoked w @ [(segment_cmd e f ?t i, Ended c)]\<rparr>)
            = (Inr out, w')"
      by (auto simp: segment_loop_step split: outcome.splits)
    have "P c" using Cons.prems(3) c by auto
    with Cons.prems(2) show ?thesis
      by (intro Cons.IH [OF run]) (use Cons.prems(3) in auto)
  qed
qed

lemma segment_loop_other_files:
  "segment_loop e i ms segs w = (Inr out, w') \<Longrightarrow>
   \<forall>p. (\<forall>f t j. p \<noteq> segment_path e f t j) \<longrightarrow> files w' p = files w p"
proof (induction ms arbitrary: i segs w)
  case Nil
  then show ?case by simp
next
  case (Cons f ms)
  show ?case
  proof (cases "supported f")
    case False
    with Cons.prems have
      run: "segment_loop e (Suc i) ms segs (w\<lparr>console := console w @ [skip_log f]\<rparr>) = (Inr out, w')"
      by (simp add: segment_loop_step)
    from Cons.IH [OF run] show ?thesis by simp
  next
    case True
    let ?t = "now e (clock w)"
    from True Cons.prems obtain c where
      run: "segment_loop e (Suc i) ms (segs @ [segment_path e f ?t i])
              (w\<lparr>clock := Suc (clock w),
                 files := (files w)(segment_path e f ?t i \<mapsto> Clip c),
                 invoked := invoked w @ [(segment_cmd e f ?t i, Ended c)]\<rparr>)
            = (Inr out, w')"
      by (auto simp: segment_loop_step split: outcome.splits)
    from Cons.IH [OF run] show ?thesis by auto
  qed
qed

lemma clips_listed:
  "\<forall>p \<in> set ps. \<exists>c. m p = Some (Clip c) \<and> P c \<Longrightarrow>
   \<exists>cs. map m ps = map (\<lambda>x. Some (Clip x)) cs \<and> (\<forall>c \<in> set cs. P c) \<and> length cs = length ps"
proof (induction ps)
  case Nil
  then show ?case by simp
next
  case (Cons p ps)
  then obtain c cs where "m p = Some (Clip c)" "P c"
    "map m ps = map (\<lambda>x. Some (Clip x)) cs" "\<forall>c \<in> set cs. P c" "length cs = length ps"
    by auto
  then show ?case
    by (intro exI [of _ "c # cs"]) simp
qed

text \<open>What the concat invocation of a delivered run produced, given what is known of
  every segment.\<close>

lemma delivered_concat:
  assumes ok: "fst (create_video e req w) = Download h out"
    and req: "req_files req = Some fs" "media fs = Some ms" "audio fs = Some (a # as)"
    and cc: "concat_contract (ffmpeg e)"
    and dir: "eol_free (dirname e)"
    and seg: "\<forall>f \<in> set ms. \<forall>t j fsys c. ffmpeg e (segment_cmd e f t j) fsys = Ended c \<longrightarrow> P c"
  obtains (run) cm cf cs pre where
    "invoked (snd (create_video e req w)) =
       pre @ [(concat_cmd (list_of e w ms) (merged_of e w ms), Ended cm),
              (mux_cmd (merged_of e w ms) (path a) out, Ended cf)]"
    "\<forall>c \<in> set cs. P c" "length cs = length (filter supported ms)"
    "(\<forall>x \<in> set cs. acodec x = None) \<longrightarrow> duration cm = sum_list (map duration cs)"
    "\<forall>v. video cm = Some v \<longrightarrow>
           fps v = 30 \<and>
           (\<forall>W H. (\<forall>x \<in> set cs. \<forall>u. video x = Some u \<longrightarrow> width u = W \<and> height u = H) \<longrightarrow>
                  width v = W \<and> height v = H)"
    "\<exists>fsys. ffmpeg e (mux_cmd (merged_of e w ms) (path a) out) fsys = Ended cf \<and>
            fsys (merged_of e w ms) = Some (Clip cm)"
proof -
  let ?segs = "segments_of e w ms" and ?lst = "list_of e w ms" and ?merged = "merged_of e w ms"
  from ok req obtain w1 cm w3 cf where run:
    "segment_loop e 0 ms [] w = (Inr ?segs, w1)"
    "?segs \<noteq> []"
    "ffmpeg e (concat_cmd ?lst ?merged) ((files w1)(?lst \<mapsto> Text (concatFileContent ?segs))) = Ended cm"
    "ffmpeg e (mux_cmd ?merged (path a) out)
       ((files w1)(?lst \<mapsto> Text (concatFileContent ?segs), ?merged \<mapsto> Clip cm)) = Ended cf"
    "out = final_of e w ms"
    "files w3 = (files w1)(?lst \<mapsto> Text (concatFileContent ?segs), ?merged \<mapsto> Clip cm, out \<mapsto> Clip cf)"
    "invoked w3 = invoked w1 @ [(concat_cmd ?lst ?merged, Ended cm), (mux_cmd ?merged (path a) out, Ended cf)]"
    "snd (create_video e req w) = cleanup a ms ?segs ?lst w3"
    by (rule delivered_run)
  let ?fs1 = "(files w1)(?lst \<mapsto> Text (concatFileContent ?segs))"
  have "\<forall>p \<in> set ?segs. \<exists>c. files w1 p = Some (Clip c) \<and> P c"
    by (rule segment_loop_clips [OF run(1) _ seg]) simp
  then have "\<forall>p \<in> set ?segs. \<exists>c. ?fs1 p = Some (Clip c) \<and> P c"
    using list_not_segment [of e w ms ms] by auto
  from clips_listed [OF this] obtain cs where cs:
    "map ?fs1 ?segs = map (\<lambda>x. Some (Clip x)) cs" "\<forall>c \<in> set cs. P c" "length cs = length ?segs"
    by blast
  have parse: "concat_script_paths (concatFileContent ?segs) = Some ?segs"
    by (rule concat_script_roundtrip) (rule eol_free_segments [OF dir])
  have "?fs1 ?lst = Some (Text (concatFileContent ?segs))" by simp
  from concat_contractD [OF cc run(3) this parse cs(1)] have
    dur: "(\<forall>x \<in> set cs. acodec x = None) \<longrightarrow> duration cm = sum_list (map duration cs)" and
    vid: "\<forall>v. video cm = Some v \<longrightarrow>
           fps v = 30 \<and>
           (\<forall>W H. (\<forall>x \<in> set cs. \<forall>u. video x = Some u \<longrightarrow> width u = W \<and> height u = H) \<longrightarrow>
                  width v = W \<and> height v = H)"
    by (rule conjunct1, rule conjunct2)
  have len: "length cs = length (filter supported ms)"
    using cs(3) by (simp add: segments_of_def length_expected_segments)
  have mux: "\<exists>fsys. ffmpeg e (mux_cmd ?merged (path a) out) fsys = Ended cf \<and>
            fsys ?merged = Some (Clip cm)"
    using run(4) by (intro exI [of _ "(files w1)(?lst \<mapsto> Text (concatFileContent ?segs), ?merged \<mapsto> Clip cm)"]) simp
  have inv: "invoked (snd (create_video e req w)) =
       invoked w1 @ [(concat_cmd ?lst ?merged, Ended cm), (mux_cmd ?merged (path a) out, Ended cf)]"
    by (simp only: run(8) cleanup_frame run(7))
  show ?thesis
    by (rule that [OF inv cs(2) len dur vid mux])
qed

lemma createVideoFromImage_Inr:
  assumes "createVideoFromImage e p i w = (Inr seg, w')"
  shows "\<exists>c. ffmpeg e (image_cmd p seg) (files w) = Ended c \<and>
             files w' = (files w)(seg \<mapsto> Clip c) \<and>
             invoked w' = invoked w @ [(image_cmd p seg, Ended c)]"
  using assms
  by (auto simp: createVideoFromImage_def date_now_def run_ffmpeg_def Let_def split: outcome.splits)

lemma sum_list_const: "\<forall>c \<in> set cs. f c = (k::nat) \<Longrightarrow> sum_list (map f cs) = k * length cs"
  by (induction cs) simp_all

lemma segment_path_in_temp: "\<exists>n. segment_path e f t j = path_join (tempFolder e) n"
  by (auto simp: segment_path_def)

lemma delivered_files:
  assumes ok: "fst (create_video e req w) = Download h out"
    and req: "req_files req = Some fs" "media fs = Some ms" "audio fs = Some (a # as)"
    and up: "\<forall>f \<in> set (a # ms). in_folder (uploadFolder e) (path f)"
  obtains (run) w1 cm cf where
    "ffmpeg e (mux_cmd (merged_of e w ms) (path a) out)
       ((files (w1::world))(list_of e w ms \<mapsto> Text (concatFileContent (segments_of e w ms)),
                   merged_of e w ms \<mapsto> Clip cm)) = Ended cf"
    "invoked (snd (create_video e req w)) =
       invoked w1 @ [(concat_cmd (list_of e w ms) (merged_of e w ms), Ended cm),
                     (mux_cmd (merged_of e w ms) (path a) out, Ended cf)]"
    "files (snd (create_video e req w)) out = Some (Clip cf)"
    "files (snd (create_video e req w)) (merged_of e w ms) = Some (Clip cm)"
    "files w1 (path a) = files w (path a)"
    "path a \<noteq> list_of e w ms" "path a \<noteq> merged_of e w ms"
  using ok req
proof (cases rule: delivered_run)
  case (run w1 cm w3 cf)
  let ?segs = "segments_of e w ms" and ?lst = "list_of e w ms" and ?merged = "merged_of e w ms"
  let ?final = "snd (create_video e req w)"
  obtain n where mg: "?merged = path_join (tempFolder e) n"
    using run_paths_in_temp(2) by blast
  obtain k where out: "out = path_join (outputFolder e) k"
    using run(5) run_paths_in_temp(3) by blast
  obtain l where lst: "?lst = path_join (tempFolder e) l"
    using run_paths_in_temp(1) by blast
  have up_temp: "\<forall>f \<in> insert a (set ms). \<forall>n. path f \<noteq> path_join (tempFolder e) n"
    using up upload_not_temp by simp
  have up_out: "\<forall>f \<in> insert a (set ms). path f \<noteq> out"
    using up upload_not_output unfolding out by simp
  have a_lst: "path a \<noteq> ?lst" and a_mg: "path a \<noteq> ?merged"
    using up_temp unfolding lst mg by simp_all
  have "\<forall>f t j. path a \<noteq> segment_path e f t j"
    using up_temp segment_path_in_temp by (metis insertI1)
  with segment_loop_other_files [OF run(1)] have a1: "files w1 (path a) = files w (path a)"
    by blast
  have inv: "invoked ?final =
       invoked w1 @ [(concat_cmd ?lst ?merged, Ended cm), (mux_cmd ?merged (path a) out, Ended cf)]"
    by (simp only: run(8) cleanup_frame run(7))
  have ne: "?merged \<noteq> out"
    using mg out temp_not_output by simp
  have "out \<noteq> path a" "out \<notin> path ` set ms"
    using up_out by auto
  moreover have "out \<notin> set ?segs"
    using segments_in_temp temp_not_output out by metis
  moreover have "out \<noteq> ?lst"
    using lst temp_not_output out by metis
  ultimately have out_kept:
    "out \<noteq> path a" "out \<notin> path ` set ms" "out \<notin> set ?segs" "out \<noteq> ?lst"
    by blast+
  have "\<forall>f \<in> insert a (set ms). path f \<noteq> ?merged"
    using up_temp unfolding mg by simp
  then have "?merged \<noteq> path a" "?merged \<notin> path ` set ms"
    by auto
  with merged_not_segment [of e w ms ms] merged_not_list [of e w ms ms] have mg_kept:
    "?merged \<noteq> path a" "?merged \<notin> path ` set ms" "?merged \<notin> set ?segs" "?merged \<noteq> ?lst"
    by blast+
  have f_out: "files ?final out = Some (Clip cf)"
    unfolding run(8) using out_kept run(6)
    by (cases "files w3 (path a) = None") (simp_all add: cleanup_files cleanup_files_aborted)
  have f_mg: "files ?final ?merged = Some (Clip cm)"
    unfolding run(8) using mg_kept run(6) ne
    by (cases "files w3 (path a) = None") (simp_all add: cleanup_files cleanup_files_aborted)
  show ?thesis
    by (rule that [OF run(4) inv f_out f_mg a1 a_lst a_mg])
qed

lemma delivered_removed:
  assumes ok: "fst (create_video e req w) = Download h out"
    and req: "req_files req = Some fs" "media fs = Some ms" "audio fs = Some (a # as)"
    and on_disk: "files w (path a) \<noteq> None"
  shows "files (snd (create_video e req w)) (path a) = None \<and>
         (\<forall>f \<in> set ms. files (snd (create_video e req w)) (path f) = None) \<and>
         (\<forall>p \<in> set (segments_of e w ms). files (snd (create_video e req w)) p = None) \<and>
         files (snd (create_video e req w)) (list_of e w ms) = None"
  using ok req
proof (cases rule: delivered_run)
  case (run w1 cm w3 cf)
  from segment_loop_summary [OF run(1)] on_disk have "files w1 (path a) \<noteq> None"
    by (simp add: keeps_files_def)
  with run(6) have a3: "files w3 (path a) \<noteq> None" by simp
  show ?thesis
    unfolding run(8) cleanup_files [OF a3] by simp
qed

lemma delivered_kept:
  assumes ok: "fst (create_video e req w) = Download h out"
    and req: "req_files req = Some fs" "media fs = Some ms" "audio fs = Some (a # as)"
    and up: "\<forall>f \<in> set (a # ms). in_folder (uploadFolder e) (path f)"
  shows "out = final_of e w ms \<and>
         (\<exists>c. files (snd (create_video e req w)) out = Some (Clip c)) \<and>
         (\<exists>c. files (snd (create_video e req w)) (merged_of e w ms) = Some (Clip c) \<and>
              (concat_cmd (list_of e w ms) (merged_of e w ms), Ended c)
                \<in> set (invoked (snd (create_video e req w))))"
proof -
  have "out = final_of e w ms"
    using ok req by (cases rule: delivered_run) simp
  moreover have "(\<exists>c. files (snd (create_video e req w)) out = Some (Clip c)) \<and>
         (\<exists>c. files (snd (create_video e req w)) (merged_of e w ms) = Some (Clip c) \<and>
              (concat_cmd (list_of e w ms) (merged_of e w ms), Ended c)
                \<in> set (invoked (snd (create_video e req w))))"
    using ok req up by (cases rule: delivered_files) simp
  ultimately show ?thesis by simp
qed

section \<open>The reference encoder and the sample runs\<close>

lemma stub_image:
  "stub_ffmpeg (image_cmd i p) fsys = Ended \<lparr>duration = 3000, video = Some hd720, acodec = None\<rparr>"
  by (simp add: stub_ffmpeg_def image_cmd_def)

lemma stub_video:
  "stub_ffmpeg (video_cmd i p) fsys =
     (case clip_at fsys i of
        Some c \<Rightarrow> Ended \<lparr>duration = duration c, video = Some hd720, acodec = Some ''aac''\<rparr>
      | None \<Rightarrow> Errored ''Invalid data found when processing input'')"
  by (simp add: stub_ffmpeg_def image_cmd_def video_cmd_def)

lemma stub_concat:
  "stub_ffmpeg (concat_cmd l p) fsys =
     (case fsys l of
        Some (Text body) \<Rightarrow>
          (case concat_script_paths body of
             Some ps \<Rightarrow>
               (case those (map (clip_at fsys) ps) of
                  Some (c # cs) \<Rightarrow>
                    Ended \<lparr>duration = sum_list (map duration (c # cs)),
                           video = map_option (\<lambda>v. v\<lparr>fps := 30\<rparr>) (video c),
                           acodec = None\<rparr>
                | _ \<Rightarrow> Errored ''Impossible to open segment'')
           | None \<Rightarrow> Errored ''Invalid list file'')
      | _ \<Rightarrow> Errored ''No such list file'')"
  by (simp add: stub_ffmpeg_def image_cmd_def video_cmd_def concat_cmd_def)

lemma stub_mux:
  "stub_ffmpeg (mux_cmd a b p) fsys =
     (case (clip_at fsys a, clip_at fsys b) of
        (Some ca, Some cb) \<Rightarrow>
          Ended \<lparr>duration = min (duration ca) (duration cb), video = video ca,
                 acodec = Some ''aac''\<rparr>
      | _ \<Rightarrow> Errored ''Invalid data found when processing input'')"
  by (simp add: stub_ffmpeg_def mux_cmd_def)

lemma stub_still_contract: "still_contract stub_ffmpeg"
  unfolding still_contract_def
  using stub_image [unfolded image_cmd_def] by (auto simp: hd720_def)

lemma stub_scale_contract: "scale_contract stub_ffmpeg"
  unfolding scale_contract_def
  using stub_video [unfolded video_cmd_def] by (auto simp: hd720_def split: option.splits)

lemma those_clips:
  "map fsys ps = map (\<lambda>x. Some (Clip x)) cs \<Longrightarrow> those (map (clip_at fsys) ps) = Some cs"
proof (induction ps arbitrary: cs)
  case Nil
  then show ?case by simp
next
  case (Cons p ps)
  then obtain c cs' where "cs = c # cs'" "fsys p = Some (Clip c)"
    "map fsys ps = map (\<lambda>x. Some (Clip x)) cs'"
    by (cases cs) auto
  with Cons.IH [of cs'] show ?case by (simp add: clip_at_def)
qed

lemma stub_concat_contract: "concat_contract stub_ffmpeg"
  unfolding concat_contract_def
proof (intro allI impI)
  fix lst out fsys c body ps cs
  assume h: "stub_ffmpeg \<lparr>inputs = [lst], inputOptions = [''-f concat'', ''-safe 0''],
              outputOptions = [''-c:v libx264'', ''-pix_fmt yuv420p'', ''-r 30''],
              videoFilters = [], audioCodec = None, save = out\<rparr> fsys = Ended c \<and>
        fsys lst = Some (Text body) \<and> concat_script_paths body = Some ps \<and>
        map fsys ps = map (\<lambda>x. Some (Clip x)) cs"
  then have th: "those (map (clip_at fsys) ps) = Some cs"
    by (intro those_clips) simp
  from h have run: "stub_ffmpeg (concat_cmd lst out) fsys = Ended c"
    by (simp add: concat_cmd_def)
  from run h th obtain c0 cs0 where cs: "cs = c0 # cs0"
    and c: "c = \<lparr>duration = sum_list (map duration cs),
                  video = map_option (\<lambda>v. v\<lparr>fps := 30\<rparr>) (video c0), acodec = None\<rparr>"
    by (cases cs) (auto simp: stub_concat)
  show "((\<forall>x \<in> set cs. acodec x = None) \<longrightarrow> duration c = sum_list (map duration cs)) \<and>
        (\<forall>v. video c = Some v \<longrightarrow>
           fps v = 30 \<and>
           (\<forall>W H. (\<forall>x \<in> set cs. \<forall>u. video x = Some u \<longrightarrow> width u = W \<and> height u = H) \<longrightarrow>
                  width v = W \<and> height v = H))"
    unfolding c using cs by auto
qed

lemma stub_mux_contract: "mux_contract stub_ffmpeg"
  unfolding mux_contract_def
  using stub_mux [unfolded mux_cmd_def]
  by (auto simp: clip_at_def split: option.splits content.splits)

lemma dec_small:
  "dec 0 = ''0''" "dec (Suc 0) = ''1''" "dec (Suc (Suc 0)) = ''2''"
  "dec 1000 = ''1000''" "dec 1001 = ''1001''" "dec 1002 = ''1002''"
  "dec 1003 = ''1003''" "dec 1004 = ''1004''"
  by (simp_all add: dec.simps digit_def)

lemma kinds1:
  "is_image upload_a" "\<not> supported upload_b" "\<not> is_image upload_c" "supported upload_c"
  "supported upload_a"
  by (simp_all add: supported_def is_image_def is_video_def mime_of_def startsWith_def
      upload_a_def upload_b_def upload_c_def)

lemma paths1:
  "path upload_a = ''/srv/uploads/1-a.png''" "path upload_b = ''/srv/uploads/1-b.txt''"
  "path upload_c = ''/srv/uploads/1-c.mp4''" "path upload_s = ''/srv/uploads/1-s.webm''"
  by (simp_all add: upload_a_def upload_b_def upload_c_def upload_s_def)

lemma folders1:
  "tempFolder env_ok = ''/srv/temp''" "outputFolder env_ok = ''/srv/outputs''"
  "uploadFolder env_ok = ''/srv/uploads''"
  by (simp_all add: tempFolder_def outputFolder_def uploadFolder_def path_join_def env_ok_def)

lemma segments1:
  "segment_path env_ok upload_a 1000 0 = ''/srv/temp/img-1000-0.mp4''"
  "segment_path env_ok upload_c 1001 (Suc (Suc 0)) = ''/srv/temp/vid-1001-2.mp4''"
  by (simp_all add: segment_path_def folders1 kinds1 path_join_def dec_small)

lemma run1_loop:
  "segment_loop env_ok 0 [upload_a, upload_b, upload_c] [] world1 =
     (Inr [''/srv/temp/img-1000-0.mp4'', ''/srv/temp/vid-1001-2.mp4''], world1_loop)"
proof -
  have now: "now env_ok k = 1000 + k" "ffmpeg env_ok = stub_ffmpeg" for k
    by (simp_all add: env_ok_def)
  show ?thesis
    by (simp add: segment_loop_step kinds1 now segments1 segment_cmd_def stub_image stub_video
        clip_at_def world1_def world1_loop_def paths1 camera_clip_def)
qed

lemma env_ok_sel:
  "now env_ok k = 1000 + k" "ffmpeg env_ok = stub_ffmpeg" "dirname env_ok = ''/srv''"
  by (simp_all add: env_ok_def)

lemma manifest1:
  "concat_script_paths (concatFileContent [''/srv/temp/img-1000-0.mp4'', ''/srv/temp/vid-1001-2.mp4'']) =
     Some [''/srv/temp/img-1000-0.mp4'', ''/srv/temp/vid-1001-2.mp4'']"
  by (rule concat_script_roundtrip) (simp add: is_eol_def newline_def carriage_return_def)

lemma disk1:
  "files world1 ''/srv/uploads/1-s.webm'' = Some (Clip recording)"
  "files world1 ''/srv/uploads/1-c.mp4'' = Some (Clip camera_clip)"
  "files world1 ''/srv/uploads/1-b.txt'' = Some Blob"
  by (simp_all add: world1_def)

lemma run1_delivered:
  "fst (create_video env_ok req1 world1) = Download download_headers ''/srv/outputs/final-1004.mp4''"
  by (simp add: create_video_def req1_def form1_def try_body_def run1_loop concat_stage_def mux_stage_def
      date_now_def writeFileSync_def console_log_def run_ffmpeg_def Let_def world1_loop_def
      folders1 path_join_def dec_small env_ok_sel stub_concat stub_mux manifest1 clip_at_def
      disk1 paths1)

lemma clock1: "clock world1 = 0" "written world1 = []" "invoked world1 = []"
  by (simp_all add: world1_def)

lemma media1: "req_files req1 = Some form1" "media form1 = Some [upload_a, upload_b, upload_c]" "audio form1 = Some [upload_s]"
  by (simp_all add: req1_def form1_def)

lemma run1_paths:
  "segments_of env_ok world1 [upload_a, upload_b, upload_c] =
     [''/srv/temp/img-1000-0.mp4'', ''/srv/temp/vid-1001-2.mp4'']"
  "list_of env_ok world1 [upload_a, upload_b, upload_c] = ''/srv/temp/concat-list-1002.txt''"
  "merged_of env_ok world1 [upload_a, upload_b, upload_c] = ''/srv/temp/merged-1003.mp4''"
  "final_of env_ok world1 [upload_a, upload_b, upload_c] = ''/srv/outputs/final-1004.mp4''"
  by (simp_all add: segments_of_def list_of_def merged_of_def final_of_def expected_segments_Cons
      kinds1 clock1 env_ok_sel segments1 concat_list_path_def merged_path_def final_path_def
      folders1 path_join_def dec_small)

lemma uploads1:
  "\<forall>f \<in> set [upload_s, upload_a, upload_b, upload_c]. in_folder (uploadFolder env_ok) (path f)"
  by (simp add: in_folder_def startsWith_def folders1 path_join_def paths1)

lemma contracts1:
  "still_contract (ffmpeg env_ok)" "scale_contract (ffmpeg env_ok)"
  "concat_contract (ffmpeg env_ok)" "mux_contract (ffmpeg env_ok)" "eol_free (dirname env_ok)"
  by (simp_all add: env_ok_sel stub_still_contract stub_scale_contract stub_concat_contract
      stub_mux_contract is_eol_def newline_def carriage_return_def)

lemma segments2:
  "segment_path env_ok upload_a 1001 (Suc 0) = ''/srv/temp/img-1001-1.mp4''"
  by (simp add: segment_path_def folders1 kinds1 path_join_def dec_small)

lemma run2_loop:
  "segment_loop env_ok 0 [upload_a, upload_a] [] world1 =
     (Inr [''/srv/temp/img-1000-0.mp4'', ''/srv/temp/img-1001-1.mp4''], world2_loop)"
  by (simp add: segment_loop_step kinds1 env_ok_sel segments1 segments2 segment_cmd_def stub_image
      world1_def world2_loop_def paths1)

lemma manifest2:
  "concat_script_paths (concatFileContent [''/srv/temp/img-1000-0.mp4'', ''/srv/temp/img-1001-1.mp4'']) =
     Some [''/srv/temp/img-1000-0.mp4'', ''/srv/temp/img-1001-1.mp4'']"
  by (rule concat_script_roundtrip) (simp add: is_eol_def newline_def carriage_return_def)

lemma run2_delivered:
  "fst (create_video env_ok req2 world1) = Download download_headers ''/srv/outputs/final-1004.mp4''"
  by (simp add: create_video_def req2_def form2_def try_body_def run2_loop concat_stage_def mux_stage_def
      date_now_def writeFileSync_def console_log_def run_ffmpeg_def Let_def world2_loop_def
      folders1 path_join_def dec_small env_ok_sel stub_concat stub_mux manifest2 clip_at_def
      disk1 paths1)

lemma run2_paths:
  "list_of env_ok world1 [upload_a, upload_a] = ''/srv/temp/concat-list-1002.txt''"
  "merged_of env_ok world1 [upload_a, upload_a] = ''/srv/temp/merged-1003.mp4''"
  by (simp_all add: list_of_def merged_of_def kinds1 clock1 env_ok_sel concat_list_path_def
      merged_path_def folders1 path_join_def dec_small)

lemma media2: "req_files req2 = Some form2" "media form2 = Some [upload_a, upload_a]" "audio form2 = Some [upload_s]"
  by (simp_all add: req2_def form2_def)

lemma hd720_fps: "hd720\<lparr>fps := 30\<rparr> = hd720"
  by (simp add: hd720_def)

lemma image1:
  "fst (createVideoFromImage env_ok ''/srv/uploads/1-a.png'' 0 world1) = Inr ''/srv/temp/img-1000-0.mp4''"
  by (simp add: createVideoFromImage_def date_now_def run_ffmpeg_def Let_def env_ok_sel stub_image
      folders1 path_join_def dec_small clock1)

lemma run1_invoked:
  "invoked (snd (create_video env_ok req1 world1)) =
     invoked world1_loop @
       [(concat_cmd ''/srv/temp/concat-list-1002.txt'' ''/srv/temp/merged-1003.mp4'',
         Ended \<lparr>duration = 8000, video = Some hd720, acodec = None\<rparr>),
        (mux_cmd ''/srv/temp/merged-1003.mp4'' ''/srv/uploads/1-s.webm'' ''/srv/outputs/final-1004.mp4'',
         Ended \<lparr>duration = 7000, video = Some hd720, acodec = Some ''aac''\<rparr>)]"
  by (simp add: create_video_def req1_def form1_def try_body_def run1_loop concat_stage_def mux_stage_def
      date_now_def writeFileSync_def console_log_def console_error_def run_ffmpeg_def Let_def
      world1_loop_def folders1 path_join_def dec_small env_ok_sel stub_concat stub_mux manifest1
      clip_at_def disk1 paths1 hd720_fps recording_def)

lemma run3_invoked:
  "invoked (snd (create_video env_ok req3 world1)) =
     invoked world1_loop @
       [(concat_cmd ''/srv/temp/concat-list-1002.txt'' ''/srv/temp/merged-1003.mp4'',
         Ended \<lparr>duration = 8000, video = Some hd720, acodec = None\<rparr>),
        (mux_cmd ''/srv/temp/merged-1003.mp4'' ''/srv/uploads/1-b.txt'' ''/srv/outputs/final-1004.mp4'',
         Errored ''Invalid data found when processing input'')]"
  by (simp add: create_video_def req3_def form3_def try_body_def run1_loop concat_stage_def mux_stage_def
      date_now_def writeFileSync_def console_log_def console_error_def run_ffmpeg_def Let_def
      world1_loop_def folders1 path_join_def dec_small env_ok_sel stub_concat stub_mux manifest1
      clip_at_def disk1 paths1 hd720_fps)


subsection \<open>The sample run with the second encoder\<close>

lemma late_unchanged:
  "late_ffmpeg (image_cmd i p) fsys = stub_ffmpeg (image_cmd i p) fsys"
  "late_ffmpeg (video_cmd i p) fsys = stub_ffmpeg (video_cmd i p) fsys"
  "late_ffmpeg (concat_cmd l p) fsys = stub_ffmpeg (concat_cmd l p) fsys"
  by (simp_all add: late_ffmpeg_def image_cmd_def video_cmd_def concat_cmd_def split: outcome.splits)

lemma late_mux:
  "late_ffmpeg (mux_cmd a b p) fsys =
     (case stub_ffmpeg (mux_cmd a b p) fsys of
        Ended c \<Rightarrow> Ended (c\<lparr>duration := duration c + 67\<rparr>)
      | Errored err \<Rightarrow> Errored err)"
  by (simp add: late_ffmpeg_def mux_cmd_def split: outcome.splits)








lemma late_still_contract: "still_contract late_ffmpeg"
  unfolding still_contract_def late_unchanged(1) [unfolded image_cmd_def]
  by (rule stub_still_contract [unfolded still_contract_def])

lemma late_scale_contract: "scale_contract late_ffmpeg"
  unfolding scale_contract_def late_unchanged(2) [unfolded video_cmd_def]
  by (rule stub_scale_contract [unfolded scale_contract_def])

lemma late_concat_contract: "concat_contract late_ffmpeg"
  unfolding concat_contract_def late_unchanged(3) [unfolded concat_cmd_def]
  by (rule stub_concat_contract [unfolded concat_contract_def])

lemma late_mux_video:
  "late_ffmpeg (mux_cmd a b p) fsys = Ended c \<Longrightarrow>
   \<exists>c'. stub_ffmpeg (mux_cmd a b p) fsys = Ended c' \<and> video c = video c'"
  by (auto simp: late_mux split: outcome.splits)

lemma late_mux_contract: "mux_contract late_ffmpeg"
  unfolding mux_contract_def
proof (intro allI impI)
  fix a b out fsys c ca
  assume h: "late_ffmpeg \<lparr>inputs = [a, b], inputOptions = [],
              outputOptions = [''-c:v copy'', ''-c:a aac'', ''-shortest''],
              videoFilters = [], audioCodec = None, save = out\<rparr> fsys = Ended c \<and>
        fsys a = Some (Clip ca)"
  then have "late_ffmpeg (mux_cmd a b out) fsys = Ended c"
    by (simp add: mux_cmd_def)
  from late_mux_video [OF this] obtain c' where
    c': "stub_ffmpeg (mux_cmd a b out) fsys = Ended c'" "video c = video c'"
    by blast
  from mux_contractD [OF stub_mux_contract c'(1)] h c'(2) show "video c = video ca"
    by simp
qed


section \<open>Segment order (C1)\<close>



section \<open>Image segments (C2)\<close>

text \<open>
  C2.  For an image the normalizer runs the encoder once, on the image looped
  (\<^verbatim>\<open>-loop 1\<close>), with \<^verbatim>\<open>-t 3\<close>, \<^verbatim>\<open>-r 30\<close> and the filter
  \<^verbatim>\<open>scale=1280:720,format=yuv420p\<close> and no audio codec; with an encoder that keeps the
  still-image contract the segment it returns is a silent clip of 3000 ms, 1280 by 720,
  30 frames a second, yuv420p.  When every item of a delivered request is an image, the
  clip the concatenation produced lasts 3000 ms times the number of items.
\<close>

theorem C2_image_segments_three_seconds:
  assumes still: "still_contract (ffmpeg e)"
  shows "(createVideoFromImage e p i w = (Inr seg, w') \<longrightarrow>
           (\<exists>c v. last (invoked w') =
                    (\<lparr>inputs = [p], inputOptions = [''-loop 1''],
                      outputOptions = [''-t 3'', ''-r 30''],
                      videoFilters = [''scale=1280:720,format=yuv420p''],
                      audioCodec = None, save = seg\<rparr>, Ended c) \<and>
                  files w' seg = Some (Clip c) \<and> duration c = 3000 \<and> acodec c = None \<and>
                  video c = Some v \<and> width v = 1280 \<and> height v = 720 \<and> fps v = 30 \<and>
                  pix_fmt v = ''yuv420p'')) \<and>
         (concat_contract (ffmpeg e) \<and> eol_free (dirname e) \<and>
          req_files req = Some fs \<and> media fs = Some ms \<and> audio fs = Some (a # as) \<and>
          (\<forall>f \<in> set ms. is_image f) \<and>
          fst (create_video e req w) = Download h out \<longrightarrow>
           (\<exists>pre cm mux. invoked (snd (create_video e req w)) =
                    pre @ [(concat_cmd (list_of e w ms) (merged_of e w ms), Ended cm), mux] \<and>
                  duration cm = 3000 * length ms))"
proof (intro conjI impI)
  assume "createVideoFromImage e p i w = (Inr seg, w')"
  from createVideoFromImage_Inr [OF this] obtain c where c:
    "ffmpeg e (image_cmd p seg) (files w) = Ended c"
    "files w' = (files w)(seg \<mapsto> Clip c)"
    "invoked w' = invoked w @ [(image_cmd p seg, Ended c)]"
    by blast
  from still_contractD [OF still c(1)] c(2,3)
  show "\<exists>c v. last (invoked w') =
                    (\<lparr>inputs = [p], inputOptions = [''-loop 1''],
                      outputOptions = [''-t 3'', ''-r 30''],
                      videoFilters = [''scale=1280:720,format=yuv420p''],
                      audioCodec = None, save = seg\<rparr>, Ended c) \<and>
                  files w' seg = Some (Clip c) \<and> duration c = 3000 \<and> acodec c = None \<and>
                  video c = Some v \<and> width v = 1280 \<and> height v = 720 \<and> fps v = 30 \<and>
                  pix_fmt v = ''yuv420p''"
    by (auto simp: image_cmd_def)
next
  assume h: "concat_contract (ffmpeg e) \<and> eol_free (dirname e) \<and>
          req_files req = Some fs \<and> media fs = Some ms \<and> audio fs = Some (a # as) \<and>
          (\<forall>f \<in> set ms. is_image f) \<and>
          fst (create_video e req w) = Download h out"
  then have img: "\<forall>f \<in> set ms. is_image f" by simp
  have seg: "\<forall>f \<in> set ms. \<forall>t j fsys c.
      ffmpeg e (segment_cmd e f t j) fsys = Ended c \<longrightarrow> duration c = 3000 \<and> acodec c = None"
    using img still_contractD [OF still] by (auto simp: segment_cmd_def)
  from h have ok: "fst (create_video e req w) = Download h out"
    and req: "req_files req = Some fs" "media fs = Some ms" "audio fs = Some (a # as)"
    and cc: "concat_contract (ffmpeg e)" and dir: "eol_free (dirname e)"
    by simp_all
  from img have all: "filter supported ms = ms"
    by (simp add: supported_def)
  from ok req cc dir seg
  show "\<exists>pre cm mux. invoked (snd (create_video e req w)) =
                    pre @ [(concat_cmd (list_of e w ms) (merged_of e w ms), Ended cm), mux] \<and>
                  duration cm = 3000 * length ms"
  proof (cases rule: delivered_concat [where P = "\<lambda>c. duration c = 3000 \<and> acodec c = None"])
    case (run cm cf cs pre)
    from run(2) have "\<forall>c \<in> set cs. duration c = 3000" and silent: "\<forall>c \<in> set cs. acodec c = None"
      by simp_all
    then have "sum_list (map duration cs) = 3000 * length cs"
      by (intro sum_list_const)
    with run(3,4) silent all have "duration cm = 3000 * length ms"
      by simp
    with run(1) show ?thesis by blast
  qed
qed

theorem C2_image_segments_three_seconds_witness:
  "fst (createVideoFromImage env_ok ''/srv/uploads/1-a.png'' 0 world1) = Inr ''/srv/temp/img-1000-0.mp4'' \<and>
   (\<exists>c v. last (invoked (snd (createVideoFromImage env_ok ''/srv/uploads/1-a.png'' 0 world1))) =
              (\<lparr>inputs = [''/srv/uploads/1-a.png''], inputOptions = [''-loop 1''],
                outputOptions = [''-t 3'', ''-r 30''],
                videoFilters = [''scale=1280:720,format=yuv420p''],
                audioCodec = None, save = ''/srv/temp/img-1000-0.mp4''\<rparr>, Ended c) \<and>
            files (snd (createVideoFromImage env_ok ''/srv/uploads/1-a.png'' 0 world1))
              ''/srv/temp/img-1000-0.mp4'' = Some (Clip c) \<and>
            duration c = 3000 \<and> acodec c = None \<and> video c = Some v \<and>
            width v = 1280 \<and> height v = 720 \<and> fps v = 30 \<and> pix_fmt v = ''yuv420p'') \<and>
   fst (create_video env_ok req2 world1) = Download download_headers ''/srv/outputs/final-1004.mp4'' \<and>
   (\<exists>pre cm mux. invoked (snd (create_video env_ok req2 world1)) =
        pre @ [(concat_cmd ''/srv/temp/concat-list-1002.txt'' ''/srv/temp/merged-1003.mp4'', Ended cm), mux] \<and>
      duration cm = 6000)"
proof -
  note inst = C2_image_segments_three_seconds [OF contracts1(1),
      of "''/srv/uploads/1-a.png''" 0 world1 "''/srv/temp/img-1000-0.mp4''"
         "snd (createVideoFromImage env_ok ''/srv/uploads/1-a.png'' 0 world1)"
         req2 form2 "[upload_a, upload_a]" upload_s "[]" download_headers "''/srv/outputs/final-1004.mp4''"]
  have h: "concat_contract (ffmpeg env_ok) \<and> eol_free (dirname env_ok) \<and>
          req_files req2 = Some form2 \<and>
          media form2 = Some [upload_a, upload_a] \<and> audio form2 = Some [upload_s] \<and>
          (\<forall>f \<in> set [upload_a, upload_a]. is_image f) \<and>
          fst (create_video env_ok req2 world1) = Download download_headers ''/srv/outputs/final-1004.mp4''"
    by (simp add: contracts1 media2 kinds1 run2_delivered)
  have run: "createVideoFromImage env_ok ''/srv/uploads/1-a.png'' 0 world1 =
     (Inr ''/srv/temp/img-1000-0.mp4'', snd (createVideoFromImage env_ok ''/srv/uploads/1-a.png'' 0 world1))"
    using image1 by (metis prod.collapse)
  from inst run h image1 show ?thesis
    by (simp add: run2_paths run2_delivered)
qed

section \<open>Audio mux (C3)\<close>




section \<open>Unsupported items (C4)\<close>

text \<open>
  C4.  An item whose MIME type starts neither with \<^verbatim>\<open>image/\<close> nor with \<^verbatim>\<open>video/\<close> is
  skipped: the loop goes on with the next item, the segments collected so far unchanged,
  and the only trace is a line on the server's console.  When no item of a request is
  supported the answer is status 400, "No valid media (image/video) files to process.",
  and apart from the console lines the state is as before: the encoder never ran and no
  file was written.
\<close>

theorem C4_unsupported_items_skipped:
  "(\<not> supported f \<longrightarrow>
      segment_loop e i (f # rest) segs w =
        segment_loop e (Suc i) rest segs (w\<lparr>console := console w @ [skip_log f]\<rparr>)) \<and>
   (req_files req = Some fs \<and> media fs = Some (m # ms) \<and> audio fs = Some (a # as) \<and>
    (\<forall>f \<in> set (m # ms). \<not> supported f) \<longrightarrow>
      create_video e req w =
        (Json 400 ''No valid media (image/video) files to process.'',
         w\<lparr>console := console w @ map skip_log (m # ms)\<rparr>))"
proof (intro conjI impI)
  assume "\<not> supported f"
  then show "segment_loop e i (f # rest) segs w =
        segment_loop e (Suc i) rest segs (w\<lparr>console := console w @ [skip_log f]\<rparr>)"
    by (simp add: segment_loop_step)
next
  assume h: "req_files req = Some fs \<and> media fs = Some (m # ms) \<and> audio fs = Some (a # as) \<and>
    (\<forall>f \<in> set (m # ms). \<not> supported f)"
  then have "segment_loop e 0 (m # ms) [] w = (Inr [], w\<lparr>console := console w @ map skip_log (m # ms)\<rparr>)"
    by (intro segment_loop_unsupported) simp
  with h show "create_video e req w =
        (Json 400 ''No valid media (image/video) files to process.'',
         w\<lparr>console := console w @ map skip_log (m # ms)\<rparr>)"
    by (simp add: create_video_def try_body_def)
qed

theorem C4_unsupported_items_skipped_witness:
  "\<not> supported upload_b \<and>
   segment_loop env_ok 0 [upload_b, upload_a] [] world1 =
     segment_loop env_ok (Suc 0) [upload_a] [] (world1\<lparr>console := console world1 @ [skip_log upload_b]\<rparr>) \<and>
   create_video env_ok req4 world1 =
     (Json 400 ''No valid media (image/video) files to process.'',
      world1\<lparr>console := console world1 @ map skip_log [upload_b, upload_s]\<rparr>)"
proof -
  have s: "\<not> supported upload_s"
    by (simp add: supported_def is_image_def is_video_def mime_of_def startsWith_def upload_s_def)
  from C4_unsupported_items_skipped [of upload_b env_ok 0 "[upload_a]" "[]" world1
      req4 form4 upload_b "[upload_s]" upload_s "[]"] s kinds1(2)
  show ?thesis
    by (simp add: req4_def form4_def)
qed

section \<open>Quoting in the manifest (C5)\<close>

text \<open>
  C5.  The line written for a path is read back by the list-file grammar as a
  \<^verbatim>\<open>file\<close> directive with exactly that path, whatever single quotes the path contains;
  and a whole manifest is read back as the list of paths it was written from, as long as
  no path contains a line break.
\<close>

theorem C5_quotes_escaped_and_read_back:
  "parse_line (manifest_line p) = File p \<and>
   ((\<forall>q \<in> set ps. eol_free q) \<longrightarrow> concat_script_paths (concatFileContent ps) = Some ps)"
  by (simp add: parse_manifest_line concat_script_roundtrip)

theorem C5_quotes_escaped_and_read_back_witness:
  "parse_line (manifest_line (''/srv/it'' @ [quote_char] @ ''s/temp/img-1-0.mp4'')) =
     File (''/srv/it'' @ [quote_char] @ ''s/temp/img-1-0.mp4'') \<and>
   concat_script_paths (concatFileContent
       [''/srv/it'' @ [quote_char] @ ''s/temp/img-1-0.mp4'', ''/srv/temp/vid-2-1.mp4'']) =
     Some [''/srv/it'' @ [quote_char] @ ''s/temp/img-1-0.mp4'', ''/srv/temp/vid-2-1.mp4'']"
  using C5_quotes_escaped_and_read_back [of "''/srv/it'' @ [quote_char] @ ''s/temp/img-1-0.mp4''"
      "[''/srv/it'' @ [quote_char] @ ''s/temp/img-1-0.mp4'', ''/srv/temp/vid-2-1.mp4'']"]
  by (simp add: is_eol_def newline_def carriage_return_def quote_char_def)

section \<open>Frame size and rate of the output (C6)\<close>

text \<open>
  C6.  With an encoder that keeps the four contracts, the clip produced by the mux of a
  delivered run has, whatever the uploads were, a video stream of 1280 by 720 at 30
  frames a second: every segment is scaled by its normalizer, the concatenation keeps the
  common frame size and forces the rate, and the mux copies the stream.
\<close>

theorem C6_output_720p_30fps:
  assumes still: "still_contract (ffmpeg e)" and scale: "scale_contract (ffmpeg e)"
    and cc: "concat_contract (ffmpeg e)" and mc: "mux_contract (ffmpeg e)"
    and dir: "eol_free (dirname e)"
    and ok: "fst (create_video e req w) = Download h out"
    and req: "req_files req = Some fs" "media fs = Some ms" "audio fs = Some (a # as)"
  shows "\<exists>pre cf. invoked (snd (create_video e req w)) =
                    pre @ [(mux_cmd (merged_of e w ms) (path a) out, Ended cf)] \<and>
                  (\<forall>v. video cf = Some v \<longrightarrow> width v = 1280 \<and> height v = 720 \<and> fps v = 30)"
proof -
  let ?P = "\<lambda>c. \<forall>v. video c = Some v \<longrightarrow> width v = 1280 \<and> height v = 720"
  have img: "?P c" if "ffmpeg e (image_cmd i p) fsys = Ended c" for i p fsys c
    using still_contractD [OF still that] by auto
  have vid: "?P c" if "ffmpeg e (video_cmd i p) fsys = Ended c" for i p fsys c
    using scale_contractD [OF scale that] by auto
  have seg: "\<forall>f \<in> set ms. \<forall>t j fsys c. ffmpeg e (segment_cmd e f t j) fsys = Ended c \<longrightarrow> ?P c"
    unfolding segment_cmd_def using img vid by (auto split: if_splits)
  from ok req cc dir seg show ?thesis
  proof (cases rule: delivered_concat [where P = ?P])
    case (run cm cf cs pre)
    from run(2,5) have merged:
      "\<forall>v. video cm = Some v \<longrightarrow> width v = 1280 \<and> height v = 720 \<and> fps v = 30"
      by blast
    from run(6) obtain fsys where
      "ffmpeg e (mux_cmd (merged_of e w ms) (path a) out) fsys = Ended cf"
      "fsys (merged_of e w ms) = Some (Clip cm)"
      by blast
    from mux_contractD [OF mc this] merged
    have "\<forall>v. video cf = Some v \<longrightarrow> width v = 1280 \<and> height v = 720 \<and> fps v = 30"
      by simp
    with run(1) show ?thesis
      by (intro exI [of _ "pre @ [(concat_cmd (list_of e w ms) (merged_of e w ms), Ended cm)]"]
          exI [of _ cf]) simp
  qed
qed

theorem C6_output_720p_30fps_witness:
  "fst (create_video env_ok req1 world1) = Download download_headers ''/srv/outputs/final-1004.mp4'' \<and>
   (\<exists>pre cf. invoked (snd (create_video env_ok req1 world1)) =
                    pre @ [(mux_cmd ''/srv/temp/merged-1003.mp4'' ''/srv/uploads/1-s.webm''
                              ''/srv/outputs/final-1004.mp4'', Ended cf)] \<and>
                  video cf = Some hd720 \<and>
                  (\<forall>v. video cf = Some v \<longrightarrow> width v = 1280 \<and> height v = 720 \<and> fps v = 30))"
proof -
  from C6_output_720p_30fps [OF contracts1 run1_delivered media1]
  obtain pre cf where run:
    "invoked (snd (create_video env_ok req1 world1)) =
       pre @ [(mux_cmd ''/srv/temp/merged-1003.mp4'' ''/srv/uploads/1-s.webm''
                 ''/srv/outputs/final-1004.mp4'', Ended cf)]"
    "\<forall>v. video cf = Some v \<longrightarrow> width v = 1280 \<and> height v = 720 \<and> fps v = 30"
    by (auto simp: run1_paths paths1)
  from run(1) run1_invoked have "cf = \<lparr>duration = 7000, video = Some hd720, acodec = Some ''aac''\<rparr>"
    by simp
  then have "video cf = Some hd720" by simp
  with run run1_delivered show ?thesis by blast
qed

section \<open>Input validation (C7)\<close>

text \<open>
  C7.  The first line of the handler reads \<^verbatim>\<open>req.files["media"]\<close>, before the two
  guards and outside the \<^verbatim>\<open>try\<close>.  When \<^verbatim>\<open>req.files\<close> is an object, a request with
  no media items (\<^verbatim>\<open>req.files["media"]\<close> undefined or empty) is answered with status 400
  and "No media files received.", and a request with media but no audio with status 400
  and "No audio file received.".  When \<^verbatim>\<open>req.files\<close> is undefined, as for a body that is
  not multipart and so supplies no media item either, that first line throws a
  \<^verbatim>\<open>TypeError\<close> and the handler sends no 400.  In all three cases the state is returned
  untouched: no encoder invocation, no file created or removed, not even a log line.
\<close>

theorem C7_missing_input_400_or_throw:
  "(req_files req = None \<longrightarrow> create_video e req w = (Thrown ''TypeError'', w)) \<and>
   (req_files req = Some fs \<and> (media fs = None \<or> media fs = Some []) \<longrightarrow>
      create_video e req w = (Json 400 ''No media files received.'', w)) \<and>
   (req_files req = Some fs \<and> (\<exists>m ms. media fs = Some (m # ms)) \<and>
    (audio fs = None \<or> audio fs = Some []) \<longrightarrow>
      create_video e req w = (Json 400 ''No audio file received.'', w))"
  by (auto simp: create_video_def)

theorem C7_missing_input_400_or_throw_witness:
  "create_video env_ok \<lparr>req_files = None\<rparr> world1 = (Thrown ''TypeError'', world1) \<and>
   fst (create_video env_ok \<lparr>req_files = None\<rparr> world1) \<noteq> Json 400 ''No media files received.'' \<and>
   create_video env_ok \<lparr>req_files = Some \<lparr>media = None, audio = Some [upload_s]\<rparr>\<rparr> world1
     = (Json 400 ''No media files received.'', world1) \<and>
   create_video env_ok \<lparr>req_files = Some \<lparr>media = Some [], audio = Some [upload_s]\<rparr>\<rparr> world1
     = (Json 400 ''No media files received.'', world1) \<and>
   create_video env_ok \<lparr>req_files = Some \<lparr>media = Some [upload_a], audio = None\<rparr>\<rparr> world1
     = (Json 400 ''No audio file received.'', world1)"
  using C7_missing_input_400_or_throw [of "\<lparr>req_files = None\<rparr>" env_ok world1]
    C7_missing_input_400_or_throw [of "\<lparr>req_files = Some \<lparr>media = None, audio = Some [upload_s]\<rparr>\<rparr>"
      env_ok world1 "\<lparr>media = None, audio = Some [upload_s]\<rparr>"]
    C7_missing_input_400_or_throw [of "\<lparr>req_files = Some \<lparr>media = Some [], audio = Some [upload_s]\<rparr>\<rparr>"
      env_ok world1 "\<lparr>media = Some [], audio = Some [upload_s]\<rparr>"]
    C7_missing_input_400_or_throw [of "\<lparr>req_files = Some \<lparr>media = Some [upload_a], audio = None\<rparr>\<rparr>"
      env_ok world1 "\<lparr>media = Some [upload_a], audio = None\<rparr>"]
  by simp

section \<open>Encoder failures (C8)\<close>

text \<open>
  C8.  When an encoder invocation of a request (with media and audio) fails, in whichever
  stage, the answer is status 500 with the fixed message "Failed to create video."; the
  failing invocation is the last one of the run and all before it ended well, so no later
  stage ran; the encoder's error is the last line on the server's console and is not part
  of the answer; and nothing is cleaned up: every file that existed before the request,
  the output of every invocation that ended well and the manifest, if it was written, are
  on disk when the request is answered.
\<close>

theorem C8_tool_failure_500:
  assumes req: "req_files req = Some fs" "media fs = Some (m # ms)" "audio fs = Some (a # as)"
    and bad: "(cmd, Errored err) \<in> set (drop (length (invoked w)) (invoked (snd (create_video e req w))))"
  shows "fst (create_video e req w) = Json 500 ''Failed to create video.'' \<and>
         (\<exists>pre. invoked (snd (create_video e req w)) = invoked w @ pre @ [(cmd, Errored err)] \<and>
                list_all ended pre \<and>
                (\<forall>x \<in> set pre. files (snd (create_video e req w)) (save (fst x)) \<noteq> None)) \<and>
         (\<exists>older. console (snd (create_video e req w)) =
                older @ [LogError [Txt ''Error in /create-video:'', ErrObj err]]) \<and>
         keeps_files w (snd (create_video e req w)) \<and>
         (\<forall>x \<in> set (drop (length (written w)) (written (snd (create_video e req w)))).
            files (snd (create_video e req w)) (fst x) \<noteq> None)"
proof -
  obtain r w1 where tb: "try_body e (m # ms) a w = (r, w1)"
    by (cases "try_body e (m # ms) a w")
  show ?thesis
  proof (cases r)
    case (Inr resp)
    with tb req have w': "snd (create_video e req w) = w1"
      by (simp add: create_video_def)
    from try_body_summary [OF tb] Inr obtain new where
      "invoked w1 = invoked w @ new" "list_all ended new"
      by (auto simp: ran_ok_def)
    with bad w' have False
      by (auto simp: list_all_iff ended_def)
    then show ?thesis ..
  next
    case (Inl err')
    with tb req have w': "snd (create_video e req w) =
        console_error [Txt ''Error in /create-video:'', ErrObj err'] w1"
      and resp: "fst (create_video e req w) = Json 500 ''Failed to create video.''"
      by (simp_all add: create_video_def)
    from try_body_summary [OF tb] Inl obtain pre cmd' where
      inv: "invoked w1 = invoked w @ pre @ [(cmd', Errored err')]" and pre: "list_all ended pre"
      and keep: "keeps_files w w1"
      by (auto simp: ran_failed_def)
    from bad w' inv pre have same: "cmd = cmd'" "err = err'"
      by (auto simp: console_error_def list_all_iff ended_def)
    from tb Inl have "built w w1"
      by (auto intro: try_body_failed_built)
    with inv obtain nw where
      out: "\<forall>x \<in> set (pre @ [(cmd', Errored err')]). ended x \<longrightarrow> files w1 (save (fst x)) \<noteq> None"
      and wr: "written w1 = written w @ nw" "\<forall>x \<in> set nw. files w1 (fst x) \<noteq> None"
      unfolding built_def by auto
    from out pre have out': "\<forall>x \<in> set pre. files w1 (save (fst x)) \<noteq> None"
      by (auto simp: list_all_iff)
    from inv pre keep same w' resp out' wr show ?thesis
      by (auto simp: console_error_def keeps_files_def)
  qed
qed

theorem C8_tool_failure_500_witness:
  "(mux_cmd ''/srv/temp/merged-1003.mp4'' ''/srv/uploads/1-b.txt'' ''/srv/outputs/final-1004.mp4'',
    Errored ''Invalid data found when processing input'')
     \<in> set (drop (length (invoked world1)) (invoked (snd (create_video env_ok req3 world1)))) \<and>
   fst (create_video env_ok req3 world1) = Json 500 ''Failed to create video.'' \<and>
   (\<exists>pre. invoked (snd (create_video env_ok req3 world1)) =
        invoked world1 @ pre @
          [(mux_cmd ''/srv/temp/merged-1003.mp4'' ''/srv/uploads/1-b.txt'' ''/srv/outputs/final-1004.mp4'',
            Errored ''Invalid data found when processing input'')] \<and>
      list_all ended pre \<and>
      list_all (\<lambda>x. files (snd (create_video env_ok req3 world1)) (save (fst x)) \<noteq> None) pre) \<and>
   (\<exists>older. console (snd (create_video env_ok req3 world1)) =
        older @ [LogError [Txt ''Error in /create-video:'',
                           ErrObj ''Invalid data found when processing input'']]) \<and>
   keeps_files world1 (snd (create_video env_ok req3 world1)) \<and>
   list_all (\<lambda>x. files (snd (create_video env_ok req3 world1)) (fst x) \<noteq> None)
     (drop (length (written world1)) (written (snd (create_video env_ok req3 world1))))"
proof -
  have bad: "(mux_cmd ''/srv/temp/merged-1003.mp4'' ''/srv/uploads/1-b.txt'' ''/srv/outputs/final-1004.mp4'',
    Errored ''Invalid data found when processing input'')
     \<in> set (drop (length (invoked world1)) (invoked (snd (create_video env_ok req3 world1))))"
    by (simp add: run3_invoked clock1)
  have req: "req_files req3 = Some form3"
    "media form3 = Some (upload_a # [upload_b, upload_c])" "audio form3 = Some (upload_b # [])"
    by (simp_all add: req3_def form3_def)
  from C8_tool_failure_500 [OF req bad] bad show ?thesis
    by (simp add: list_all_iff)
qed

section \<open>Cleanup after delivery (C9)\<close>

text \<open>
  C9, as amended.  After a delivered request whose uploads lie in the upload folder and
  whose audio upload is on disk, the audio upload, every media upload, every segment and
  the manifest are gone and the final artifact is on disk; the merged track in the
  temporary folder is on disk as well, so not every temporary file of the request is
  removed.
\<close>

theorem C9_cleanup_after_delivery:
  assumes ok: "fst (create_video e req w) = Download h out"
    and req: "req_files req = Some fs" "media fs = Some ms" "audio fs = Some (a # as)"
    and on_disk: "files w (path a) \<noteq> None"
    and up: "\<forall>f \<in> set (a # ms). in_folder (uploadFolder e) (path f)"
  shows "files (snd (create_video e req w)) (path a) = None \<and>
         (\<forall>f \<in> set ms. files (snd (create_video e req w)) (path f) = None) \<and>
         (\<forall>p \<in> set (segments_of e w ms). files (snd (create_video e req w)) p = None) \<and>
         files (snd (create_video e req w)) (list_of e w ms) = None \<and>
         out = final_of e w ms \<and>
         (\<exists>c. files (snd (create_video e req w)) out = Some (Clip c)) \<and>
         (\<exists>c. files (snd (create_video e req w)) (merged_of e w ms) = Some (Clip c))"
  using delivered_removed [OF ok req on_disk] delivered_kept [OF ok req up]
  by blast

theorem C9_cleanup_after_delivery_witness:
  "fst (create_video env_ok req1 world1) = Download download_headers ''/srv/outputs/final-1004.mp4'' \<and>
   files world1 ''/srv/uploads/1-s.webm'' = Some (Clip recording) \<and>
   files (snd (create_video env_ok req1 world1)) ''/srv/uploads/1-s.webm'' = None \<and>
   files (snd (create_video env_ok req1 world1)) ''/srv/uploads/1-a.png'' = None \<and>
   files (snd (create_video env_ok req1 world1)) ''/srv/uploads/1-b.txt'' = None \<and>
   files (snd (create_video env_ok req1 world1)) ''/srv/uploads/1-c.mp4'' = None \<and>
   files (snd (create_video env_ok req1 world1)) ''/srv/temp/img-1000-0.mp4'' = None \<and>
   files (snd (create_video env_ok req1 world1)) ''/srv/temp/vid-1001-2.mp4'' = None \<and>
   files (snd (create_video env_ok req1 world1)) ''/srv/temp/concat-list-1002.txt'' = None \<and>
   (\<exists>c. files (snd (create_video env_ok req1 world1)) ''/srv/outputs/final-1004.mp4'' = Some (Clip c)) \<and>
   (\<exists>c. files (snd (create_video env_ok req1 world1)) ''/srv/temp/merged-1003.mp4'' = Some (Clip c))"
  using C9_cleanup_after_delivery [OF run1_delivered media1 _ uploads1]
  by (simp add: disk1 paths1 run1_paths run1_delivered)

text \<open>
  The claim as first stated, that after a delivered request its temporary files no longer
  exist, fails on the sample request: the merged track, a file the request created in the
  temporary folder, is still there.
\<close>

theorem C9_temp_file_remains_counterexample:
  "fst (create_video env_ok req1 world1) = Download download_headers ''/srv/outputs/final-1004.mp4'' \<and>
   in_folder (tempFolder env_ok) ''/srv/temp/merged-1003.mp4'' \<and>
   files world1 ''/srv/temp/merged-1003.mp4'' = None \<and>
   files (snd (create_video env_ok req1 world1)) ''/srv/temp/merged-1003.mp4'' \<noteq> None"
proof -
  have "files (snd (create_video env_ok req1 world1))
          (merged_of env_ok world1 [upload_a, upload_b, upload_c]) \<noteq> None"
    using run1_delivered media1 uploads1 by (cases rule: delivered_files) simp
  moreover have "files world1 ''/srv/temp/merged-1003.mp4'' = None"
    by (simp add: world1_def)
  ultimately show ?thesis
    by (simp add: run1_paths run1_delivered in_folder_def startsWith_def folders1 path_join_def)
qed

section \<open>The merged track stays (C10)\<close>

text \<open>
  C10.  After a delivered request the file at the merged track's path still holds the
  clip that the concatenation produced: the cleanup never removes it, while (the audio
  upload being on disk when the cleanup starts) the segments and the manifest, the other
  intermediate files of the request, are gone.
\<close>

theorem C10_merged_track_left_behind:
  assumes ok: "fst (create_video e req w) = Download h out"
    and req: "req_files req = Some fs" "media fs = Some ms" "audio fs = Some (a # as)"
    and up: "\<forall>f \<in> set (a # ms). in_folder (uploadFolder e) (path f)"
  shows "(\<exists>c. files (snd (create_video e req w)) (merged_of e w ms) = Some (Clip c) \<and>
              (concat_cmd (list_of e w ms) (merged_of e w ms), Ended c)
                \<in> set (invoked (snd (create_video e req w)))) \<and>
         (files w (path a) \<noteq> None \<longrightarrow>
            (\<forall>p \<in> set (segments_of e w ms). files (snd (create_video e req w)) p = None) \<and>
            files (snd (create_video e req w)) (list_of e w ms) = None)"
  using delivered_removed [OF ok req] delivered_kept [OF ok req up]
  by blast

theorem C10_merged_track_left_behind_witness:
  "fst (create_video env_ok req1 world1) = Download download_headers ''/srv/outputs/final-1004.mp4'' \<and>
   files world1 ''/srv/uploads/1-s.webm'' = Some (Clip recording) \<and>
   (\<exists>c. files (snd (create_video env_ok req1 world1)) ''/srv/temp/merged-1003.mp4'' = Some (Clip c) \<and>
        (concat_cmd ''/srv/temp/concat-list-1002.txt'' ''/srv/temp/merged-1003.mp4'', Ended c)
          \<in> set (invoked (snd (create_video env_ok req1 world1)))) \<and>
   files (snd (create_video env_ok req1 world1)) ''/srv/temp/img-1000-0.mp4'' = None \<and>
   files (snd (create_video env_ok req1 world1)) ''/srv/temp/vid-1001-2.mp4'' = None \<and>
   files (snd (create_video env_ok req1 world1)) ''/srv/temp/concat-list-1002.txt'' = None"
  using C10_merged_track_left_behind [OF run1_delivered media1 uploads1]
  by (simp add: disk1 paths1 run1_paths run1_delivered)

end
